theory Spec2Isabelle
  imports Main
begin

section \<open>Block-STM executor: data model (txio.go, executor.go)\<close>

text \<open>
  Go's \<open>int\<close> is modelled as \<open>int\<close>: every integer of the executor is a transaction index,
  an incarnation or a counter, and the sentinel \<open>-1\<close> is used throughout.
  \<open>Key\<close> is an opaque comparable type (type variable \<open>'k\<close>), the written value an opaque
  \<open>interface{}\<close> (type variable \<open>'v\<close>).
\<close>

record Version =
  TxnIndex :: int
  Incarnation :: int

text \<open>The fields of \<open>ReadDescriptor\<close> carry the prefix \<open>rd_\<close>, since \<open>WriteDescriptor\<close> has
  fields of the same names.\<close>

record 'k ReadDescriptor =
  rd_Path :: 'k
  rd_Kind :: int
  rd_V :: Version

record ('k, 'v) WriteDescriptor =
  Path :: 'k
  V :: Version
  Val :: 'v

type_synonym 'k TxnInput = "'k ReadDescriptor list"
type_synonym ('k, 'v) TxnOutput = "('k, 'v) WriteDescriptor list"

subsection \<open>\<open>TxnOutput.hasNewWrite\<close>\<close>

text \<open>A Go \<open>map[Key]bool\<close>; reading a missing key yields \<open>false\<close>.\<close>

definition cmpMap_get :: "('k \<rightharpoonup> bool) \<Rightarrow> 'k \<Rightarrow> bool" where
  "cmpMap_get m k = (case m k of None \<Rightarrow> False | Some b \<Rightarrow> b)"

text \<open>\<open>for i := 1; i < len(cmpSet); i++ { cmpMap[cmpSet[i].Path] = true }\<close>, the loop running over
  the elements of \<open>cmpSet\<close> after the first.\<close>

fun cmpMap_fill :: "('k \<rightharpoonup> bool) \<Rightarrow> ('k, 'v) WriteDescriptor list \<Rightarrow> ('k \<rightharpoonup> bool)" where
  "cmpMap_fill m [] = m"
| "cmpMap_fill m (w # ws) = cmpMap_fill (m(Path w \<mapsto> True)) ws"

text \<open>\<open>for _, v := range txo { if !cmpMap[v.Path] { return true } }; return false\<close>\<close>

fun hasNewWrite_scan :: "('k \<rightharpoonup> bool) \<Rightarrow> ('k, 'v) WriteDescriptor list \<Rightarrow> bool" where
  "hasNewWrite_scan m [] = False"
| "hasNewWrite_scan m (v # vs) = (if \<not> cmpMap_get m (Path v) then True else hasNewWrite_scan m vs)"

definition hasNewWrite :: "('k, 'v) TxnOutput \<Rightarrow> ('k, 'v) WriteDescriptor list \<Rightarrow> bool" where
  "hasNewWrite txo cmpSet =
     (if length txo = 0 then False
      else if length cmpSet = 0 \<or> length txo > length cmpSet then True
      else (case cmpSet of
              [] \<Rightarrow> True
            | c # cs \<Rightarrow> hasNewWrite_scan (cmpMap_fill [Path c \<mapsto> True] cs) txo))"

text \<open>The set of paths occurring in a write list.\<close>

definition paths :: "('k, 'v) WriteDescriptor list \<Rightarrow> 'k set" where
  "paths ws = Path ` set ws"

subsection \<open>\<open>TxnInputOutput\<close>\<close>

text \<open>Indexing a Go slice outside its bounds, calling a method through a reference to no
  object, or sending on a closed channel panics.\<close>

datatype panic = IndexOutOfRange | NilDereference | SendOnClosedChannel

definition slice_get :: "'x list \<Rightarrow> int \<Rightarrow> panic + 'x" where
  "slice_get xs i = (if 0 \<le> i \<and> i < int (length xs) then Inr (xs ! nat i) else Inl IndexOutOfRange)"

definition slice_set :: "'x list \<Rightarrow> int \<Rightarrow> 'x \<Rightarrow> panic + 'x list" where
  "slice_set xs i x = (if 0 \<le> i \<and> i < int (length xs) then Inr (xs[nat i := x]) else Inl IndexOutOfRange)"

text \<open>\<open>xs[i]++\<close>\<close>

definition slice_incr :: "int list \<Rightarrow> int \<Rightarrow> panic + int list" where
  "slice_incr xs i = (if 0 \<le> i \<and> i < int (length xs) then Inr (xs[nat i := xs ! nat i + 1]) else Inl IndexOutOfRange)"

text \<open>Sequencing of steps that may panic.\<close>

definition andThen :: "panic + 'x \<Rightarrow> ('x \<Rightarrow> panic + 'y) \<Rightarrow> panic + 'y" where
  "andThen r f = (case r of Inl p \<Rightarrow> Inl p | Inr x \<Rightarrow> f x)"

record ('k, 'v) TxnInputOutput =
  inputs :: "'k TxnInput list"
  outputs :: "('k, 'v) TxnOutput list"
  allOutputs :: "('k, 'v) TxnOutput list"

definition AllWriteSet :: "('k, 'v) TxnInputOutput \<Rightarrow> int \<Rightarrow> panic + ('k, 'v) WriteDescriptor list" where
  "AllWriteSet io txnIdx = slice_get (allOutputs io) txnIdx"

text \<open>\<open>make([]T, numTx)\<close> for a length \<open>numTx\<close>: a slice of \<open>numTx\<close> nil slices. The only caller
  passes \<open>len(tasks)\<close>, hence the argument type \<open>nat\<close>.\<close>

definition MakeTxnInputOutput :: "nat \<Rightarrow> ('k, 'v) TxnInputOutput" where
  "MakeTxnInputOutput numTx =
     \<lparr>inputs = replicate numTx [], outputs = replicate numTx [], allOutputs = replicate numTx []\<rparr>"

definition recordRead :: "('k, 'v) TxnInputOutput \<Rightarrow> int \<Rightarrow> 'k ReadDescriptor list \<Rightarrow> panic + ('k, 'v) TxnInputOutput" where
  "recordRead io txId input = andThen (slice_set (inputs io) txId input) (\<lambda>xs. Inr (io\<lparr>inputs := xs\<rparr>))"

definition recordWrite :: "('k, 'v) TxnInputOutput \<Rightarrow> int \<Rightarrow> ('k, 'v) WriteDescriptor list \<Rightarrow> panic + ('k, 'v) TxnInputOutput" where
  "recordWrite io txId output = andThen (slice_set (outputs io) txId output) (\<lambda>xs. Inr (io\<lparr>outputs := xs\<rparr>))"

definition recordAllWrite :: "('k, 'v) TxnInputOutput \<Rightarrow> int \<Rightarrow> ('k, 'v) WriteDescriptor list \<Rightarrow> panic + ('k, 'v) TxnInputOutput" where
  "recordAllWrite io txId output = andThen (slice_set (allOutputs io) txId output) (\<lambda>xs. Inr (io\<lparr>allOutputs := xs\<rparr>))"

subsection \<open>Tasks, jobs and results (executor.go)\<close>

text \<open>A Go \<open>error\<close> returned by a task is \<open>nil\<close> (\<open>None\<close>), an \<open>ErrExecAbortError\<close> with its
  \<open>Dependency\<close>, or any other error value (opaque, type variable \<open>'e\<close>).\<close>

datatype 'e exec_error = ErrExecAbortError int | OtherError 'e

record ('k, 'v, 'e) ExecResult =
  err :: "'e exec_error option"
  ver :: Version
  txIn :: "'k TxnInput"
  txOut :: "('k, 'v) TxnOutput"
  txAllOut :: "('k, 'v) TxnOutput"

text \<open>The interface \<open>ExecTask\<close>. A task is an object with a state of its own (type variable \<open>'t\<close>),
  which \<open>Execute\<close> may change; \<open>Execute\<close> receives the shared \<open>*MVHashMap\<close> and returns it as it
  leaves it. \<open>common.Address\<close> is the type variable \<open>'a\<close>.\<close>

record ('t, 'mv, 'k, 'v, 'e, 'a) ExecTask =
  Execute :: "'t \<Rightarrow> 'mv \<Rightarrow> int \<Rightarrow> 'e exec_error option \<times> 't \<times> 'mv"
  MVReadList :: "'t \<Rightarrow> 'k ReadDescriptor list"
  MVWriteList :: "'t \<Rightarrow> ('k, 'v) WriteDescriptor list"
  MVFullWriteList :: "'t \<Rightarrow> ('k, 'v) WriteDescriptor list"
  Sender :: "'t \<Rightarrow> 'a"

text \<open>\<open>ExecVersionView\<close>. The field \<open>et\<close> refers to a task object: it is the position of that
  object in \<open>tasks\<close>. The field \<open>mvh\<close> always points to the one \<open>MVHashMap\<close> of the run, which
  is a component of the state below.\<close>

record 'a ExecVersionView =
  ev_ver :: Version
  ev_et :: int
  ev_sender :: 'a

text \<open>\<open>ExecVersionView.Execute\<close>: the result \<open>er\<close> starts as the zero value; the three lists are
  read from the task only when \<open>Execute\<close> returned no error.\<close>

definition ExecVersionView_Execute ::
  "('t, 'mv, 'k, 'v, 'e, 'a) ExecTask \<Rightarrow> 'a ExecVersionView \<Rightarrow> 't \<Rightarrow> 'mv \<Rightarrow> ('k, 'v, 'e) ExecResult \<times> 't \<times> 'mv" where
  "ExecVersionView_Execute T ev t m =
     (case Execute T t m (Incarnation (ev_ver ev)) of (e, t', m') \<Rightarrow>
        if e \<noteq> None
        then (\<lparr>err = e, ver = ev_ver ev, txIn = [], txOut = [], txAllOut = []\<rparr>, t', m')
        else (\<lparr>err = e, ver = ev_ver ev, txIn = MVReadList T t', txOut = MVWriteList T t',
               txAllOut = MVFullWriteList T t'\<rparr>, t', m'))"

text \<open>
  Where a worker goroutine stands in \<open>doWork\<close>: at \<open>for task := range taskCh\<close> with no job
  (\<open>Waiting\<close>), with the job it received and before \<open>task.Execute()\<close> (\<open>Received\<close>), with the
  result and before the test of \<open>res.err\<close> (\<open>Executed\<close>), before \<open>resultCh <- res\<close> (\<open>Flushed\<close>),
  or past the loop, which ends when the task channel is closed and empty (\<open>Stopped\<close>).
\<close>

datatype ('k, 'v, 'e, 'a) worker_state =
  Waiting | Received "'a ExecVersionView" | Executed "('k, 'v, 'e) ExecResult"
  | Flushed "('k, 'v, 'e) ExecResult" | Stopped

text \<open>
  Where the coordinator stands: in the loop of lines 133 to 278; past the loop with the value of
  \<open>err\<close>, having closed the first \<open>k\<close> of the four channels in the order of lines 280 to 283
  (\<open>chTasks\<close>, \<open>chSpeculativeTasks\<close>, \<open>chResults\<close>, \<open>chSpeculativeResults\<close>); or returned.
\<close>

datatype 'e coordinator = InLoop | Closing nat "'e exec_error option" | Exited "'e exec_error option"

definition closedChannels :: "'e coordinator \<Rightarrow> nat" where
  "closedChannels c = (case c of InLoop \<Rightarrow> 0 | Closing k e \<Rightarrow> k | Exited e \<Rightarrow> 4)"

definition numGoProcs :: int where "numGoProcs = 8"
definition numSpeculativeProcs :: int where "numSpeculativeProcs = 16"

subsection \<open>The status manager, the multi-version map and \<open>ValidateVersion\<close>\<close>

text \<open>
  The status manager (type variable \<open>'sm\<close>), the \<open>MVHashMap\<close> (type variable \<open>'mv\<close>) and
  \<open>ValidateVersion\<close> are used by the executor and defined elsewhere in the package. The executor is
  modelled over any implementation of them: their operations are the fields of one record, each a
  state-passing function named as in the calls of executor.go. \<open>blockCount\<close> is the field
  \<open>blockCount[i]\<close> of the status manager.
\<close>

record ('sm, 'mv, 'k, 'v) blockstm_ops =
  makeStatusManager :: "int \<Rightarrow> 'sm"
  pushPending :: "'sm \<Rightarrow> int \<Rightarrow> 'sm"
  pushPendingSet :: "'sm \<Rightarrow> int list \<Rightarrow> 'sm"
  takeNextPending :: "'sm \<Rightarrow> int \<times> 'sm"
  markComplete :: "'sm \<Rightarrow> int \<Rightarrow> 'sm"
  clearInProgress :: "'sm \<Rightarrow> int \<Rightarrow> 'sm"
  clearComplete :: "'sm \<Rightarrow> int \<Rightarrow> 'sm"
  clearPending :: "'sm \<Rightarrow> int \<Rightarrow> 'sm"
  addDependencies :: "'sm \<Rightarrow> int \<Rightarrow> int \<Rightarrow> bool \<times> 'sm"
  removeDependency :: "'sm \<Rightarrow> int \<Rightarrow> 'sm"
  checkPending :: "'sm \<Rightarrow> int \<Rightarrow> bool"
  blockCount :: "'sm \<Rightarrow> int \<Rightarrow> int"
  minPending :: "'sm \<Rightarrow> int"
  maxAllComplete :: "'sm \<Rightarrow> int"
  countComplete :: "'sm \<Rightarrow> int"
  getRevalidationRange :: "'sm \<Rightarrow> int \<Rightarrow> int list"
  MakeMVHashMap :: "'mv"
  FlushMVWriteSet :: "'mv \<Rightarrow> ('k, 'v) WriteDescriptor list \<Rightarrow> 'mv"
  Delete :: "'mv \<Rightarrow> 'k \<Rightarrow> int \<Rightarrow> 'mv"
  MarkEstimate :: "'mv \<Rightarrow> 'k \<Rightarrow> int \<Rightarrow> 'mv"
  ValidateVersion :: "int \<Rightarrow> ('k, 'v) TxnInputOutput \<Rightarrow> 'mv \<Rightarrow> 'sm \<Rightarrow> bool"

subsection \<open>The state of \<open>ExecuteParallel\<close>\<close>

text \<open>
  The local variables of \<open>ExecuteParallel\<close>, the objects they point to and the goroutines it
  started. A channel is the list of the values sent and not yet received. \<open>procs\<close> holds the
  \<open>procNum\<close> of every worker goroutine. \<open>estimateDeps\<close> is a \<open>map[int][]int\<close>: a missing key
  reads as the nil slice, which is the empty list. The named result \<open>err\<close> is nil until the
  assignment of line 214, which the \<open>break\<close> of line 215 follows: it is not a part of the state,
  the \<open>break\<close> carries it.
\<close>

record ('t, 'sm, 'mv, 'k, 'v, 'e, 'a) exec_state =
  tasks :: "'t list"
  procs :: "int list"
  chTasks :: "'a ExecVersionView list"
  chSpeculativeTasks :: "'a ExecVersionView list"
  chResults :: "('k, 'v, 'e) ExecResult list"
  chSpeculativeResults :: "('k, 'v, 'e) ExecResult list"
  cntExec :: int
  cntSuccess :: int
  cntAbort :: int
  cntTotalValidations :: int
  cntValidationFail :: int
  mvh :: 'mv
  execTasks :: 'sm
  validateTasks :: 'sm
  lastTxIO :: "('k, 'v) TxnInputOutput"
  txIncarnations :: "int list"
  diagExecSuccess :: "int list"
  diagExecAbort :: "int list"
  estimateDeps :: "int \<Rightarrow> int list"


subsection \<open>The coordinator: a successful result (executor.go, lines 143 to 179)\<close>

text \<open>\<open>for _, v := range prevWrite { if _, ok := cmpMap[v.Path]; !ok { mvh.Delete(v.Path, ti) } }\<close>\<close>

fun deleteRemoved ::
  "('sm, 'mv, 'k, 'v) blockstm_ops \<Rightarrow> 'mv \<Rightarrow> ('k \<rightharpoonup> bool) \<Rightarrow> ('k, 'v) WriteDescriptor list \<Rightarrow> int \<Rightarrow> 'mv" where
  "deleteRemoved ops m cmpMap [] ti = m"
| "deleteRemoved ops m cmpMap (v # vs) ti =
     deleteRemoved ops (if cmpMap (Path v) = None then Delete ops m (Path v) ti else m) cmpMap vs ti"

definition handleSuccess ::
  "('sm, 'mv, 'k, 'v) blockstm_ops \<Rightarrow> ('t, 'sm, 'mv, 'k, 'v, 'e, 'a) exec_state \<Rightarrow> ('k, 'v, 'e) ExecResult
     \<Rightarrow> panic + ('t, 'sm, 'mv, 'k, 'v, 'e, 'a) exec_state" where
  "handleSuccess ops st res =
     (let ti = TxnIndex (ver res) in
      andThen (recordRead (lastTxIO st) ti (txIn res)) (\<lambda>io1.
      andThen
        (if Incarnation (ver res) = 0 then
           andThen (recordWrite io1 ti (txOut res)) (\<lambda>io2.
           andThen (recordAllWrite io2 ti (txAllOut res)) (\<lambda>io3.
           Inr (st\<lparr>lastTxIO := io3\<rparr>)))
         else
           andThen (AllWriteSet io1 ti) (\<lambda>cmpSet.
           let st1 = (if hasNewWrite (txAllOut res) cmpSet
                      then st\<lparr>validateTasks := pushPendingSet ops (validateTasks st)
                                 (getRevalidationRange ops (execTasks st) (ti + 1))\<rparr>
                      else st) in
           andThen (AllWriteSet io1 ti) (\<lambda>prevWrite.
           let cmpMap = cmpMap_fill Map.empty (txAllOut res);
               st2 = st1\<lparr>mvh := deleteRemoved ops (mvh st1) cmpMap prevWrite ti\<rparr> in
           andThen (recordWrite io1 ti (txOut res)) (\<lambda>io2.
           andThen (recordAllWrite io2 ti (txAllOut res)) (\<lambda>io3.
           Inr (st2\<lparr>lastTxIO := io3\<rparr>))))))
        (\<lambda>st3.
           let st4 = st3\<lparr>validateTasks := pushPending ops (validateTasks st3) ti\<rparr>;
               st5 = st4\<lparr>execTasks := markComplete ops (execTasks st4) ti\<rparr> in
           andThen (slice_incr (diagExecSuccess st5) ti) (\<lambda>d.
           let st6 = st5\<lparr>diagExecSuccess := d, cntSuccess := cntSuccess st5 + 1\<rparr> in
           Inr (st6\<lparr>execTasks := removeDependency ops (execTasks st6) ti\<rparr>)))))"

subsection \<open>The coordinator: an aborted execution (lines 180 to 212)\<close>

text \<open>
  \<open>for l > 0 && estimateDeps[ti][l-1] > dep { removeDependency(estimateDeps[ti][l-1]);
  estimateDeps[ti] = estimateDeps[ti][:l-1]; l-- }\<close>, on the list \<open>ds = estimateDeps[ti]\<close>, whose
  length is \<open>l\<close> at every test of the loop.
\<close>

function popEstimates ::
  "('sm, 'mv, 'k, 'v) blockstm_ops \<Rightarrow> int \<Rightarrow> 'sm \<Rightarrow> int list \<Rightarrow> 'sm \<times> int list" where
  "popEstimates ops dep et ds =
     (if length ds > 0 \<and> ds ! (length ds - 1) > dep
      then popEstimates ops dep (removeDependency ops et (ds ! (length ds - 1))) (take (length ds - 1) ds)
      else (et, ds))"
  by pat_completeness auto
termination
  by (relation "measure (\<lambda>(ops, dep, et, ds). length ds)") auto

declare popEstimates.simps [simp del]

text \<open>Lines 182 to 204: the value of \<open>addedDependencies\<close> and the state after the two cases of
  \<open>execErr.Dependency\<close>.\<close>

definition abortDependencies ::
  "('sm, 'mv, 'k, 'v) blockstm_ops \<Rightarrow> ('t, 'sm, 'mv, 'k, 'v, 'e, 'a) exec_state \<Rightarrow> ('k, 'v, 'e) ExecResult
     \<Rightarrow> int \<Rightarrow> bool \<times> ('t, 'sm, 'mv, 'k, 'v, 'e, 'a) exec_state" where
  "abortDependencies ops st res dep =
     (let ti = TxnIndex (ver res) in
      if dep \<ge> 0 then
        (case popEstimates ops dep (execTasks st) (estimateDeps st ti) of (et1, ds) \<Rightarrow>
         case addDependencies ops et1 dep ti of (b, et2) \<Rightarrow>
           (b, st\<lparr>execTasks := et2, estimateDeps := (estimateDeps st)(ti := ds)\<rparr>))
      else if blockCount ops (execTasks st) ti \<ge> 0 then
        (let estimate = (if length (estimateDeps st ti) > 0
                         then estimateDeps st ti ! (length (estimateDeps st ti) - 1) else 0) in
         case addDependencies ops (execTasks st) estimate ti of (b, et1) \<Rightarrow>
           let newEstimate = (if estimate + 1 \<ge> ti then ti - 1 else estimate + 1) in
           (b, st\<lparr>execTasks := et1,
                   estimateDeps := (estimateDeps st)(ti := estimateDeps st ti @ [newEstimate])\<rparr>))
      else (False, st))"

text \<open>Lines 180 to 212, \<open>dep\<close> being \<open>execErr.Dependency\<close>.\<close>

definition handleAbort ::
  "('sm, 'mv, 'k, 'v) blockstm_ops \<Rightarrow> ('t, 'sm, 'mv, 'k, 'v, 'e, 'a) exec_state \<Rightarrow> ('k, 'v, 'e) ExecResult
     \<Rightarrow> int \<Rightarrow> panic + ('t, 'sm, 'mv, 'k, 'v, 'e, 'a) exec_state" where
  "handleAbort ops st res dep =
     (let ti = TxnIndex (ver res);
          addedDependencies = fst (abortDependencies ops st res dep);
          st1 = snd (abortDependencies ops st res dep);
          st2 = st1\<lparr>execTasks := clearInProgress ops (execTasks st1) ti\<rparr>;
          st3 = (if \<not> addedDependencies
                 then st2\<lparr>execTasks := pushPending ops (execTasks st2) ti\<rparr> else st2) in
      andThen (slice_incr (txIncarnations st3) ti) (\<lambda>inc.
      andThen (slice_incr (diagExecAbort st3) ti) (\<lambda>d.
      Inr (st3\<lparr>txIncarnations := inc, diagExecAbort := d, cntAbort := cntAbort st3 + 1\<rparr>))))"

subsection \<open>The coordinator: validation (lines 218 to 251)\<close>

text \<open>
  \<open>for validateTasks.minPending() <= maxComplete && validateTasks.minPending() >= 0
  { toValidate = append(toValidate, validateTasks.takeNextPending()) }\<close>. Whether the loop ends
  depends on the status manager, so the result is an option: \<open>None\<close> is a loop that never ends.
\<close>

partial_function (option) drainValidate ::
  "('sm, 'mv, 'k, 'v) blockstm_ops \<Rightarrow> int \<Rightarrow> 'sm \<Rightarrow> int list \<Rightarrow> (int list \<times> 'sm) option" where
  "drainValidate ops maxComplete vt toValidate =
     (if minPending ops vt \<le> maxComplete \<and> minPending ops vt \<ge> 0
      then drainValidate ops maxComplete (snd (takeNextPending ops vt))
             (toValidate @ [fst (takeNextPending ops vt)])
      else Some (toValidate, vt))"

text \<open>\<open>for _, v := range lastTxIO.AllWriteSet(tx) { mvh.MarkEstimate(v.Path, tx) }\<close>\<close>

fun markEstimates ::
  "('sm, 'mv, 'k, 'v) blockstm_ops \<Rightarrow> 'mv \<Rightarrow> ('k, 'v) WriteDescriptor list \<Rightarrow> int \<Rightarrow> 'mv" where
  "markEstimates ops m [] tx = m"
| "markEstimates ops m (v # vs) tx = markEstimates ops (MarkEstimate ops m (Path v) tx) vs tx"

text \<open>The body of \<open>for i := 0; i < len(toValidate); i++\<close> for \<open>tx = toValidate[i]\<close>.\<close>

definition validateOne ::
  "('sm, 'mv, 'k, 'v) blockstm_ops \<Rightarrow> ('t, 'sm, 'mv, 'k, 'v, 'e, 'a) exec_state \<Rightarrow> int
     \<Rightarrow> panic + ('t, 'sm, 'mv, 'k, 'v, 'e, 'a) exec_state" where
  "validateOne ops st tx =
     (let st1 = st\<lparr>cntTotalValidations := cntTotalValidations st + 1\<rparr> in
      if ValidateVersion ops tx (lastTxIO st1) (mvh st1) (execTasks st1)
      then Inr (st1\<lparr>validateTasks := markComplete ops (validateTasks st1) tx\<rparr>)
      else
        let st2 = st1\<lparr>cntValidationFail := cntValidationFail st1 + 1\<rparr> in
        andThen (slice_incr (diagExecAbort st2) tx) (\<lambda>d.
        andThen (AllWriteSet (lastTxIO st2) tx) (\<lambda>ws.
        let st3 = st2\<lparr>diagExecAbort := d, mvh := markEstimates ops (mvh st2) ws tx\<rparr>;
            st4 = st3\<lparr>validateTasks := pushPendingSet ops (validateTasks st3)
                         (getRevalidationRange ops (execTasks st3) (tx + 1))\<rparr>;
            st5 = st4\<lparr>validateTasks := clearInProgress ops (validateTasks st4) tx\<rparr> in
        if checkPending ops (execTasks st5) tx then Inr st5
        else if blockCount ops (execTasks st5) tx = - 1 then
          (let st6 = st5\<lparr>execTasks := pushPending ops (execTasks st5) tx\<rparr>;
               st7 = st6\<lparr>execTasks := clearComplete ops (execTasks st6) tx\<rparr> in
           andThen (slice_incr (txIncarnations st7) tx) (\<lambda>inc. Inr (st7\<lparr>txIncarnations := inc\<rparr>)))
        else Inr st5)))"

fun validateAll ::
  "('sm, 'mv, 'k, 'v) blockstm_ops \<Rightarrow> ('t, 'sm, 'mv, 'k, 'v, 'e, 'a) exec_state \<Rightarrow> int list
     \<Rightarrow> panic + ('t, 'sm, 'mv, 'k, 'v, 'e, 'a) exec_state" where
  "validateAll ops st [] = Inr st"
| "validateAll ops st (tx # txs) = andThen (validateOne ops st tx) (\<lambda>st'. validateAll ops st' txs)"

definition validatePhase ::
  "('sm, 'mv, 'k, 'v) blockstm_ops \<Rightarrow> ('t, 'sm, 'mv, 'k, 'v, 'e, 'a) exec_state
     \<Rightarrow> (panic + ('t, 'sm, 'mv, 'k, 'v, 'e, 'a) exec_state) option" where
  "validatePhase ops st =
     (let maxComplete = maxAllComplete ops (execTasks st) in
      case drainValidate ops maxComplete (validateTasks st) [] of
        None \<Rightarrow> None
      | Some (toValidate, vt) \<Rightarrow> Some (validateAll ops (st\<lparr>validateTasks := vt\<rparr>) toValidate))"

subsection \<open>The coordinator: dispatch (lines 253 to 272)\<close>

text \<open>\<open>ExecVersionView{ver: Version{nextTx, txIncarnations[nextTx]}, et: tasks[nextTx], mvh: mvh,
  sender: tasks[nextTx].Sender()}\<close>\<close>

definition mkJob ::
  "('t, 'mv, 'k, 'v, 'e, 'a) ExecTask \<Rightarrow> ('t, 'sm, 'mv, 'k, 'v, 'e, 'a) exec_state \<Rightarrow> int
     \<Rightarrow> panic + 'a ExecVersionView" where
  "mkJob T st nextTx =
     andThen (slice_get (txIncarnations st) nextTx) (\<lambda>inc.
     andThen (slice_get (tasks st) nextTx) (\<lambda>t.
     Inr \<lparr>ev_ver = \<lparr>TxnIndex = nextTx, Incarnation = inc\<rparr>, ev_et = nextTx, ev_sender = Sender T t\<rparr>))"

text \<open>Lines 253 to 263: at most one task for \<open>chTasks\<close>.\<close>

definition dispatchTask ::
  "('t, 'mv, 'k, 'v, 'e, 'a) ExecTask \<Rightarrow> ('sm, 'mv, 'k, 'v) blockstm_ops
     \<Rightarrow> ('t, 'sm, 'mv, 'k, 'v, 'e, 'a) exec_state \<Rightarrow> panic + ('t, 'sm, 'mv, 'k, 'v, 'e, 'a) exec_state" where
  "dispatchTask T ops st =
     (let maxValidated = maxAllComplete ops (validateTasks st) in
      if minPending ops (execTasks st) \<noteq> - 1 \<and> minPending ops (execTasks st) \<le> maxValidated + 20
      then
        (let nextTx = fst (takeNextPending ops (execTasks st));
             st1 = st\<lparr>execTasks := snd (takeNextPending ops (execTasks st))\<rparr> in
         if nextTx \<noteq> - 1
         then andThen (mkJob T st1 nextTx) (\<lambda>job.
                Inr (st1\<lparr>cntExec := cntExec st1 + 1, chTasks := chTasks st1 @ [job]\<rparr>))
         else Inr st1)
      else Inr st)"

text \<open>Lines 265 to 272: \<open>for execTasks.minPending() != -1 { ... }\<close>; \<open>None\<close> is a loop that never
  ends.\<close>

partial_function (option) dispatchSpeculative ::
  "('t, 'mv, 'k, 'v, 'e, 'a) ExecTask \<Rightarrow> ('sm, 'mv, 'k, 'v) blockstm_ops
     \<Rightarrow> ('t, 'sm, 'mv, 'k, 'v, 'e, 'a) exec_state
     \<Rightarrow> (panic + ('t, 'sm, 'mv, 'k, 'v, 'e, 'a) exec_state) option" where
  "dispatchSpeculative T ops st =
     (if minPending ops (execTasks st) \<noteq> - 1
      then
        (let nextTx = fst (takeNextPending ops (execTasks st));
             st1 = st\<lparr>execTasks := snd (takeNextPending ops (execTasks st))\<rparr> in
         if nextTx \<noteq> - 1
         then (case mkJob T st1 nextTx of
                 Inl p \<Rightarrow> Some (Inl p)
               | Inr job \<Rightarrow> dispatchSpeculative T ops
                   (st1\<lparr>cntExec := cntExec st1 + 1, chSpeculativeTasks := chSpeculativeTasks st1 @ [job]\<rparr>))
         else dispatchSpeculative T ops st1)
      else Some (Inr st))"


text \<open>Lines 253 to 272 together.\<close>

definition dispatchPhase ::
  "('t, 'mv, 'k, 'v, 'e, 'a) ExecTask \<Rightarrow> ('sm, 'mv, 'k, 'v) blockstm_ops
     \<Rightarrow> ('t, 'sm, 'mv, 'k, 'v, 'e, 'a) exec_state
     \<Rightarrow> (panic + ('t, 'sm, 'mv, 'k, 'v, 'e, 'a) exec_state) option" where
  "dispatchPhase T ops st =
     (case dispatchTask T ops st of
        Inl p \<Rightarrow> Some (Inl p)
      | Inr st1 \<Rightarrow> dispatchSpeculative T ops st1)"

subsection \<open>The coordinator loop (lines 133 to 278)\<close>

text \<open>Lines 134 to 141: \<open>chResults\<close> is read before \<open>chSpeculativeResults\<close>; with both empty the
  iteration ends at \<open>continue\<close> (\<open>None\<close>).\<close>

definition pollResults ::
  "('t, 'sm, 'mv, 'k, 'v, 'e, 'a) exec_state
     \<Rightarrow> (('k, 'v, 'e) ExecResult \<times> ('t, 'sm, 'mv, 'k, 'v, 'e, 'a) exec_state) option" where
  "pollResults st =
     (if length (chResults st) > 0
      then Some (hd (chResults st), st\<lparr>chResults := tl (chResults st)\<rparr>)
      else if length (chSpeculativeResults st) > 0
      then Some (hd (chSpeculativeResults st), st\<lparr>chSpeculativeResults := tl (chSpeculativeResults st)\<rparr>)
      else None)"

text \<open>How an iteration of \<open>for { ... }\<close> ends: at its end or at \<open>continue\<close>, or at a \<open>break\<close>,
  with the value that \<open>err\<close> has then.\<close>

datatype ('s, 'e) loop_step = Continue 's | Break 's "'e exec_error option"

text \<open>Lines 143 to 216: the three cases of \<open>res.err\<close>.\<close>

definition handleResult ::
  "('sm, 'mv, 'k, 'v) blockstm_ops \<Rightarrow> ('t, 'sm, 'mv, 'k, 'v, 'e, 'a) exec_state \<Rightarrow> ('k, 'v, 'e) ExecResult
     \<Rightarrow> panic + (('t, 'sm, 'mv, 'k, 'v, 'e, 'a) exec_state, 'e) loop_step" where
  "handleResult ops st res =
     (case err res of
        None \<Rightarrow> andThen (handleSuccess ops st res) (\<lambda>s. Inr (Continue s))
      | Some (ErrExecAbortError dep) \<Rightarrow> andThen (handleAbort ops st res dep) (\<lambda>s. Inr (Continue s))
      | Some (OtherError e) \<Rightarrow> Inr (Break st (err res)))"

text \<open>Lines 218 to 277: the rest of an iteration whose result did not end the loop.\<close>

definition afterResult ::
  "('t, 'mv, 'k, 'v, 'e, 'a) ExecTask \<Rightarrow> ('sm, 'mv, 'k, 'v) blockstm_ops
     \<Rightarrow> ('t, 'sm, 'mv, 'k, 'v, 'e, 'a) exec_state
     \<Rightarrow> (panic + (('t, 'sm, 'mv, 'k, 'v, 'e, 'a) exec_state, 'e) loop_step) option" where
  "afterResult T ops st1 =
     (case validatePhase ops st1 of
        None \<Rightarrow> None
      | Some (Inl p) \<Rightarrow> Some (Inl p)
      | Some (Inr st2) \<Rightarrow>
          (case dispatchPhase T ops st2 of
             None \<Rightarrow> None
           | Some (Inl p) \<Rightarrow> Some (Inl p)
           | Some (Inr st3) \<Rightarrow>
               if countComplete ops (validateTasks st3) = int (length (tasks st3))
                  \<and> countComplete ops (execTasks st3) = int (length (tasks st3))
               then Some (Inr (Break st3 None))
               else Some (Inr (Continue st3))))"

text \<open>Lines 143 to 277: the iteration for a received result \<open>res\<close>.\<close>

definition coordBody ::
  "('t, 'mv, 'k, 'v, 'e, 'a) ExecTask \<Rightarrow> ('sm, 'mv, 'k, 'v) blockstm_ops
     \<Rightarrow> ('t, 'sm, 'mv, 'k, 'v, 'e, 'a) exec_state \<Rightarrow> ('k, 'v, 'e) ExecResult
     \<Rightarrow> (panic + (('t, 'sm, 'mv, 'k, 'v, 'e, 'a) exec_state, 'e) loop_step) option" where
  "coordBody T ops st res =
     (case handleResult ops st res of
        Inl p \<Rightarrow> Some (Inl p)
      | Inr (Break s e) \<Rightarrow> Some (Inr (Break s e))
      | Inr (Continue st1) \<Rightarrow> afterResult T ops st1)"


subsection \<open>The workers (lines 76 to 94)\<close>

text \<open>
  The three steps of the body of \<open>for task := range taskCh\<close> in \<open>doWork\<close>. The flag tells the
  speculative pair of channels from the other pair.
\<close>

definition workerFlush ::
  "('sm, 'mv, 'k, 'v) blockstm_ops \<Rightarrow> ('k, 'v, 'e) ExecResult \<Rightarrow> ('t, 'sm, 'mv, 'k, 'v, 'e, 'a) exec_state
     \<Rightarrow> ('t, 'sm, 'mv, 'k, 'v, 'e, 'a) exec_state" where
  "workerFlush ops res st =
     (if err res = None then st\<lparr>mvh := FlushMVWriteSet ops (mvh st) (txAllOut res)\<rparr> else st)"

definition workerSend ::
  "bool \<Rightarrow> ('k, 'v, 'e) ExecResult \<Rightarrow> ('t, 'sm, 'mv, 'k, 'v, 'e, 'a) exec_state
     \<Rightarrow> ('t, 'sm, 'mv, 'k, 'v, 'e, 'a) exec_state" where
  "workerSend speculative res st =
     (if speculative then st\<lparr>chSpeculativeResults := chSpeculativeResults st @ [res]\<rparr>
      else st\<lparr>chResults := chResults st @ [res]\<rparr>)"

definition workerExecute ::
  "('t, 'mv, 'k, 'v, 'e, 'a) ExecTask \<Rightarrow> 'a ExecVersionView \<Rightarrow> ('t, 'sm, 'mv, 'k, 'v, 'e, 'a) exec_state
     \<Rightarrow> panic + ('k, 'v, 'e) ExecResult \<times> ('t, 'sm, 'mv, 'k, 'v, 'e, 'a) exec_state" where
  "workerExecute T task st =
     (if 0 \<le> ev_et task \<and> ev_et task < int (length (tasks st))
      then (case ExecVersionView_Execute T task (tasks st ! nat (ev_et task)) (mvh st) of (res, t', m') \<Rightarrow>
              Inr (res, st\<lparr>tasks := (tasks st)[nat (ev_et task) := t'], mvh := m'\<rparr>))
      else Inl NilDereference)"

text \<open>
  One iteration of \<open>for task := range taskCh\<close> when no other goroutine moves in between and the
  channels are open: the job at the head of the queue is received, executed, flushed and its
  result sent. With nothing to receive the worker waits, and the state stays as it is.
\<close>

definition doWork ::
  "('t, 'mv, 'k, 'v, 'e, 'a) ExecTask \<Rightarrow> ('sm, 'mv, 'k, 'v) blockstm_ops \<Rightarrow> bool
     \<Rightarrow> ('t, 'sm, 'mv, 'k, 'v, 'e, 'a) exec_state \<Rightarrow> panic + ('t, 'sm, 'mv, 'k, 'v, 'e, 'a) exec_state" where
  "doWork T ops speculative st =
     (case (if speculative then chSpeculativeTasks st else chTasks st) of
        [] \<Rightarrow> Inr st
      | task # rest \<Rightarrow>
          andThen (workerExecute T task
                     (if speculative then st\<lparr>chSpeculativeTasks := rest\<rparr> else st\<lparr>chTasks := rest\<rparr>))
            (\<lambda>(res, st1). Inr (workerSend speculative res (workerFlush ops res st1))))"

subsection \<open>The goroutines\<close>

text \<open>
  A configuration of the run: the variables and shared objects of \<open>ExecuteParallel\<close>, where each
  worker goroutine stands, by \<open>procNum\<close>, and where the coordinator stands.
\<close>

record ('t, 'sm, 'mv, 'k, 'v, 'e, 'a) configuration =
  vars :: "('t, 'sm, 'mv, 'k, 'v, 'e, 'a) exec_state"
  workers :: "int \<Rightarrow> ('k, 'v, 'e, 'a) worker_state"
  coord :: "'e coordinator"

text \<open>The configuration in which every worker waits and the coordinator is in the loop.\<close>

definition inLoop ::
  "('t, 'sm, 'mv, 'k, 'v, 'e, 'a) exec_state \<Rightarrow> ('t, 'sm, 'mv, 'k, 'v, 'e, 'a) configuration" where
  "inLoop st = \<lparr>vars = st, workers = (\<lambda>procNum. Waiting), coord = InLoop\<rparr>"

text \<open>Whether the task channel, or the result channel, of a worker has been closed.\<close>

definition taskChClosed :: "bool \<Rightarrow> 'e coordinator \<Rightarrow> bool" where
  "taskChClosed speculative c \<longleftrightarrow> (if speculative then 2 else 1) \<le> closedChannels c"

definition resultChClosed :: "bool \<Rightarrow> 'e coordinator \<Rightarrow> bool" where
  "resultChClosed speculative c \<longleftrightarrow> (if speculative then 4 else 3) \<le> closedChannels c"

text \<open>
  One step of a worker in \<open>doWork(taskCh, resultCh)\<close>, from where it stands. A receive takes
  the head of the task channel, also when the channel is closed; on an empty channel it waits,
  and the loop ends when the channel is closed. A send on a closed channel panics.
\<close>

definition workStep ::
  "('t, 'mv, 'k, 'v, 'e, 'a) ExecTask \<Rightarrow> ('sm, 'mv, 'k, 'v) blockstm_ops \<Rightarrow> bool \<Rightarrow> int
     \<Rightarrow> ('t, 'sm, 'mv, 'k, 'v, 'e, 'a) configuration
     \<Rightarrow> panic + ('t, 'sm, 'mv, 'k, 'v, 'e, 'a) configuration" where
  "workStep T ops speculative procNum cfg =
     (case workers cfg procNum of
        Waiting \<Rightarrow>
          (case (if speculative then chSpeculativeTasks (vars cfg) else chTasks (vars cfg)) of
             [] \<Rightarrow> Inr (if taskChClosed speculative (coord cfg)
                        then cfg\<lparr>workers := (workers cfg)(procNum := Stopped)\<rparr> else cfg)
           | task # rest \<Rightarrow>
               Inr (cfg\<lparr>vars := (if speculative then (vars cfg)\<lparr>chSpeculativeTasks := rest\<rparr>
                                  else (vars cfg)\<lparr>chTasks := rest\<rparr>),
                        workers := (workers cfg)(procNum := Received task)\<rparr>))
      | Received task \<Rightarrow>
          andThen (workerExecute T task (vars cfg))
            (\<lambda>(res, st1). Inr (cfg\<lparr>vars := st1, workers := (workers cfg)(procNum := Executed res)\<rparr>))
      | Executed res \<Rightarrow>
          Inr (cfg\<lparr>vars := workerFlush ops res (vars cfg),
                   workers := (workers cfg)(procNum := Flushed res)\<rparr>)
      | Flushed res \<Rightarrow>
          (if resultChClosed speculative (coord cfg) then Inl SendOnClosedChannel
           else Inr (cfg\<lparr>vars := workerSend speculative res (vars cfg),
                        workers := (workers cfg)(procNum := Waiting)\<rparr>))
      | Stopped \<Rightarrow> Inr cfg)"

text \<open>The goroutine \<open>procNum\<close>: \<open>if procNum < numSpeculativeProcs { doWork(chSpeculativeTasks,
  chSpeculativeResults) } else { doWork(chTasks, chResults) }\<close>.\<close>

definition procStep ::
  "('t, 'mv, 'k, 'v, 'e, 'a) ExecTask \<Rightarrow> ('sm, 'mv, 'k, 'v) blockstm_ops \<Rightarrow> int
     \<Rightarrow> ('t, 'sm, 'mv, 'k, 'v, 'e, 'a) configuration
     \<Rightarrow> panic + ('t, 'sm, 'mv, 'k, 'v, 'e, 'a) configuration" where
  "procStep T ops procNum cfg =
     (if procNum \<in> set (procs (vars cfg))
      then (if procNum < numSpeculativeProcs then workStep T ops True procNum cfg
            else workStep T ops False procNum cfg)
      else Inr cfg)"

text \<open>
  One step of the coordinator, with the results it received in that step. In the loop it is one
  iteration: at \<open>continue\<close> when no result is ready, else the iteration for the result polled; a
  \<open>break\<close> leaves the loop with the value of \<open>err\<close>. Past the loop it is the next \<open>close\<close> of
  lines 280 to 283 and, after the four of them, the \<open>return\<close>.
\<close>

definition coordStep ::
  "('t, 'mv, 'k, 'v, 'e, 'a) ExecTask \<Rightarrow> ('sm, 'mv, 'k, 'v) blockstm_ops
     \<Rightarrow> ('t, 'sm, 'mv, 'k, 'v, 'e, 'a) configuration
     \<Rightarrow> ((panic + ('t, 'sm, 'mv, 'k, 'v, 'e, 'a) configuration) \<times> ('k, 'v, 'e) ExecResult list) option" where
  "coordStep T ops cfg =
     (case coord cfg of
        InLoop \<Rightarrow>
          (case pollResults (vars cfg) of
             None \<Rightarrow> Some (Inr cfg, [])
           | Some (res, st0) \<Rightarrow>
               (case coordBody T ops st0 res of
                  None \<Rightarrow> None
                | Some (Inl p) \<Rightarrow> Some (Inl p, [res])
                | Some (Inr (Break s e)) \<Rightarrow> Some (Inr (cfg\<lparr>vars := s, coord := Closing 0 e\<rparr>), [res])
                | Some (Inr (Continue s)) \<Rightarrow> Some (Inr (cfg\<lparr>vars := s\<rparr>), [res])))
      | Closing k e \<Rightarrow>
          Some (Inr (cfg\<lparr>coord := (if k < 4 then Closing (k + 1) e else Exited e)\<rparr>), [])
      | Exited e \<Rightarrow> Some (Inr cfg, []))"

subsection \<open>Initialisation (lines 67 to 131)\<close>

text \<open>Lines 99 to 108: \<open>prevSenderTx\<close> is the map, \<open>i\<close> the index of the first task of the list.\<close>

fun serialiseSenders ::
  "('t, 'mv, 'k, 'v, 'e, 'a) ExecTask \<Rightarrow> ('sm, 'mv, 'k, 'v) blockstm_ops \<Rightarrow> 'sm \<Rightarrow> ('a \<rightharpoonup> int) \<Rightarrow> int
     \<Rightarrow> 't list \<Rightarrow> 'sm" where
  "serialiseSenders T ops et prevSenderTx i [] = et"
| "serialiseSenders T ops et prevSenderTx i (t # ts) =
     serialiseSenders T ops
       (case prevSenderTx (Sender T t) of
          Some tx \<Rightarrow> clearPending ops (snd (addDependencies ops et tx i)) i
        | None \<Rightarrow> et)
       (prevSenderTx(Sender T t \<mapsto> i)) (i + 1) ts"

text \<open>Lines 112 to 119: \<open>for x := 0; x < numSpeculativeProcs; x++\<close>, the argument counting the
  iterations left.\<close>

fun bootstrap ::
  "('t, 'mv, 'k, 'v, 'e, 'a) ExecTask \<Rightarrow> ('sm, 'mv, 'k, 'v) blockstm_ops \<Rightarrow> nat
     \<Rightarrow> ('t, 'sm, 'mv, 'k, 'v, 'e, 'a) exec_state \<Rightarrow> panic + ('t, 'sm, 'mv, 'k, 'v, 'e, 'a) exec_state" where
  "bootstrap T ops 0 st = Inr st"
| "bootstrap T ops (Suc n) st =
     (let tx = fst (takeNextPending ops (execTasks st));
          st1 = st\<lparr>execTasks := snd (takeNextPending ops (execTasks st))\<rparr> in
      if tx \<noteq> - 1
      then andThen (slice_get (tasks st1) tx) (\<lambda>t.
             bootstrap T ops n
               (st1\<lparr>cntExec := cntExec st1 + 1,
                    chSpeculativeTasks := chSpeculativeTasks st1 @
                      [\<lparr>ev_ver = \<lparr>TxnIndex = tx, Incarnation = 0\<rparr>, ev_et = tx, ev_sender = Sender T t\<rparr>]\<rparr>))
      else bootstrap T ops n st1)"

text \<open>
  Lines 67 to 131, for a batch that is not empty. The source makes \<open>lastTxIO\<close>, \<open>txIncarnations\<close>
  and the two diagnostic tables after the bootstrap (lines 121 to 125), which does not read them:
  they are the last update here. The workers are started at line 76, before the bootstrap; a job
  taken by a worker in the meantime changes the channels and the \<open>MVHashMap\<close> only, the bootstrap
  changes \<open>execTasks\<close>, \<open>cntExec\<close> and the tail of \<open>chSpeculativeTasks\<close> only, and the coordinator
  loop does not run yet, so the initialisation is taken as one step that the workers follow.
  Every worker then waits for its first job and the coordinator is about to enter the loop.
\<close>

definition initialise ::
  "('t, 'mv, 'k, 'v, 'e, 'a) ExecTask \<Rightarrow> ('sm, 'mv, 'k, 'v) blockstm_ops \<Rightarrow> 't list
     \<Rightarrow> panic + ('t, 'sm, 'mv, 'k, 'v, 'e, 'a) exec_state" where
  "initialise T ops ts =
     andThen
       (bootstrap T ops (nat numSpeculativeProcs)
          \<lparr>tasks = ts, procs = [0 ..  numSpeculativeProcs + numGoProcs - 1],
           chTasks = [], chSpeculativeTasks = [], chResults = [], chSpeculativeResults = [],
           cntExec = 0, cntSuccess = 0, cntAbort = 0, cntTotalValidations = 0, cntValidationFail = 0,
           mvh = MakeMVHashMap ops,
           execTasks = serialiseSenders T ops (makeStatusManager ops (int (length ts))) Map.empty 0 ts,
           validateTasks = makeStatusManager ops 0,
           lastTxIO = MakeTxnInputOutput 0,
           txIncarnations = [], diagExecSuccess = [], diagExecAbort = [],
           estimateDeps = (\<lambda>i. [])\<rparr>)
       (\<lambda>st. Inr (st\<lparr>lastTxIO := MakeTxnInputOutput (length ts),
                      txIncarnations := replicate (length ts) 0,
                      diagExecSuccess := replicate (length ts) 0,
                      diagExecAbort := replicate (length ts) 0\<rparr>))"

subsection \<open>\<open>ExecuteParallel\<close>\<close>

text \<open>
  The goroutines run at the same time. A run is modelled by a schedule, the list of who moves next:
  a worker goroutine, which then takes its next step in \<open>doWork\<close> (receive, execute, flush or
  send), or the coordinator, which then runs one iteration of its loop or, past the loop, one
  \<open>close\<close> or the \<open>return\<close>. Every interleaving of these steps is a schedule; \<open>Execute\<close>, the
  operations of the \<open>MVHashMap\<close> and an iteration of the coordinator are each taken as one step.
  The four channels are made with the capacity \<open>len(tasks)\<close>; a send to a full channel would
  wait, which the lists here do not show: a send on an open channel always appends.
\<close>

datatype sched_event = RunProc int | RunCoordinator

text \<open>
  What a run has reached at the end of a schedule: a panic, which ends the process, a run that
  still goes on (the coordinator in the loop or closing the channels), or the return of
  \<open>ExecuteParallel\<close> with \<open>lastTxIO\<close> and \<open>err\<close>. The return also carries the final state when there
  is one (\<open>None\<close>: no channel, worker or \<open>MVHashMap\<close> was ever created); the workers may still move
  after it. Next to the outcome stands the list of the results the coordinator received, in order.
\<close>

datatype ('s, 'io, 'e) run_outcome = Panicked panic | Running 's | Returned 'io "'e exec_error option" "'s option"

definition outcome ::
  "('t, 'sm, 'mv, 'k, 'v, 'e, 'a) configuration
     \<Rightarrow> (('t, 'sm, 'mv, 'k, 'v, 'e, 'a) configuration, ('k, 'v) TxnInputOutput, 'e) run_outcome" where
  "outcome cfg =
     (case coord cfg of Exited e \<Rightarrow> Returned (lastTxIO (vars cfg)) e (Some cfg) | _ \<Rightarrow> Running cfg)"

fun run ::
  "('t, 'mv, 'k, 'v, 'e, 'a) ExecTask \<Rightarrow> ('sm, 'mv, 'k, 'v) blockstm_ops
     \<Rightarrow> ('t, 'sm, 'mv, 'k, 'v, 'e, 'a) configuration \<Rightarrow> ('k, 'v, 'e) ExecResult list \<Rightarrow> sched_event list
     \<Rightarrow> ((('t, 'sm, 'mv, 'k, 'v, 'e, 'a) configuration, ('k, 'v) TxnInputOutput, 'e) run_outcome
          \<times> ('k, 'v, 'e) ExecResult list) option" where
  "run T ops cfg received [] = Some (outcome cfg, received)"
| "run T ops cfg received (RunProc procNum # sched) =
     (case procStep T ops procNum cfg of
        Inl p \<Rightarrow> Some (Panicked p, received)
      | Inr cfg' \<Rightarrow> run T ops cfg' received sched)"
| "run T ops cfg received (RunCoordinator # sched) =
     (case coordStep T ops cfg of
        None \<Rightarrow> None
      | Some (Inl p, rs) \<Rightarrow> Some (Panicked p, received @ rs)
      | Some (Inr cfg', rs) \<Rightarrow> run T ops cfg' (received @ rs) sched)"

definition ExecuteParallel ::
  "('t, 'mv, 'k, 'v, 'e, 'a) ExecTask \<Rightarrow> ('sm, 'mv, 'k, 'v) blockstm_ops \<Rightarrow> 't list \<Rightarrow> sched_event list
     \<Rightarrow> ((('t, 'sm, 'mv, 'k, 'v, 'e, 'a) configuration, ('k, 'v) TxnInputOutput, 'e) run_outcome
          \<times> ('k, 'v, 'e) ExecResult list) option" where
  "ExecuteParallel T ops ts sched =
     (if length ts = 0 then Some (Returned (MakeTxnInputOutput (length ts)) None None, [])
      else (case initialise T ops ts of
              Inl p \<Rightarrow> Some (Panicked p, [])
            | Inr st \<Rightarrow> run T ops (inLoop st) [] sched))"


section \<open>An implementation of the absent operations, after the specification\<close>

subsection \<open>Status manager\<close>

text \<open>
  Modelled from the spec: the status manager of section 4.2, whose source (\<open>makeStatusManager\<close>
  and the methods called by executor.go) is not among the files at hand. An index is Pending,
  InProgress or Complete when it is in the list of that name; the lists are kept in ascending
  order ("queues are ordered by TxnIndex ascending"). \<open>dependency\<close> holds the edges
  \<open>(blocker, i)\<close>; an index is Blocked while an edge points to it.
\<close>

record StatusManager =
  pending :: "int list"
  inProgress :: "int list"
  complete :: "int list"
  dependency :: "(int \<times> int) list"

definition insertInList :: "int list \<Rightarrow> int \<Rightarrow> int list" where
  "insertInList xs x = (if x \<in> set xs then xs else insort x xs)"

definition sm_makeStatusManager :: "int \<Rightarrow> StatusManager" where
  "sm_makeStatusManager numTasks =
     \<lparr>pending = map int [0 ..< nat numTasks], inProgress = [], complete = [], dependency = []\<rparr>"

text \<open>\<open>pushPending(i)\<close>: "Pending \<open>\<leftarrow>\<close> (any non-InProgress state)".\<close>

definition sm_pushPending :: "StatusManager \<Rightarrow> int \<Rightarrow> StatusManager" where
  "sm_pushPending m i = m\<lparr>pending := insertInList (pending m) i\<rparr>"

text \<open>\<open>pushPendingSet(ixs)\<close>: "batch pushPending".\<close>

definition sm_pushPendingSet :: "StatusManager \<Rightarrow> int list \<Rightarrow> StatusManager" where
  "sm_pushPendingSet m ixs = fold (\<lambda>i m'. sm_pushPending m' i) ixs m"

text \<open>\<open>takeNextPending()\<close>: "pops the smallest Pending index into InProgress", or returns \<open>-1\<close>.\<close>

definition sm_takeNextPending :: "StatusManager \<Rightarrow> int \<times> StatusManager" where
  "sm_takeNextPending m =
     (case pending m of
        [] \<Rightarrow> (- 1, m)
      | x # xs \<Rightarrow> (x, m\<lparr>pending := xs, inProgress := insertInList (inProgress m) x\<rparr>))"

text \<open>\<open>markComplete(i)\<close>: "InProgress \<open>\<rightarrow>\<close> Complete".\<close>

definition sm_markComplete :: "StatusManager \<Rightarrow> int \<Rightarrow> StatusManager" where
  "sm_markComplete m i =
     m\<lparr>inProgress := removeAll i (inProgress m), complete := insertInList (complete m) i\<rparr>"

definition sm_clearInProgress :: "StatusManager \<Rightarrow> int \<Rightarrow> StatusManager" where
  "sm_clearInProgress m i = m\<lparr>inProgress := removeAll i (inProgress m)\<rparr>"

definition sm_clearComplete :: "StatusManager \<Rightarrow> int \<Rightarrow> StatusManager" where
  "sm_clearComplete m i = m\<lparr>complete := removeAll i (complete m)\<rparr>"

definition sm_clearPending :: "StatusManager \<Rightarrow> int \<Rightarrow> StatusManager" where
  "sm_clearPending m i = m\<lparr>pending := removeAll i (pending m)\<rparr>"

text \<open>\<open>addDependencies(blocker, i)\<close>: "record edge blocker\<open>\<rightarrow>\<close>i; if blocker is not yet Complete,
  transitions i to Blocked (return true); otherwise return false".\<close>

definition sm_addDependencies :: "StatusManager \<Rightarrow> int \<Rightarrow> int \<Rightarrow> bool \<times> StatusManager" where
  "sm_addDependencies m blocker i =
     (if blocker \<in> set (complete m) then (False, m)
      else (True, m\<lparr>dependency := List.insert (blocker, i) (dependency m)\<rparr>))"

text \<open>\<open>removeDependency(i)\<close>: "for every j blocked by i, decrement its block count; when a j's
  block count reaches zero, push j Pending".\<close>

definition sm_removeDependency :: "StatusManager \<Rightarrow> int \<Rightarrow> StatusManager" where
  "sm_removeDependency m i =
     (let released = map snd (filter (\<lambda>e. fst e = i) (dependency m));
          rest = filter (\<lambda>e. fst e \<noteq> i) (dependency m);
          free = filter (\<lambda>j. \<not> list_ex (\<lambda>e. snd e = j) rest) released
      in sm_pushPendingSet (m\<lparr>dependency := rest\<rparr>) free)"

definition sm_checkPending :: "StatusManager \<Rightarrow> int \<Rightarrow> bool" where
  "sm_checkPending m i \<longleftrightarrow> i \<in> set (pending m)"

text \<open>\<open>blockCount[i]\<close>: "current number of outstanding blockers for i; -1 when i is complete".\<close>

definition sm_blockCount :: "StatusManager \<Rightarrow> int \<Rightarrow> int" where
  "sm_blockCount m i =
     (if i \<in> set (complete m) then - 1 else int (length (filter (\<lambda>e. snd e = i) (dependency m))))"

definition sm_minPending :: "StatusManager \<Rightarrow> int" where
  "sm_minPending m = (case pending m of [] \<Rightarrow> - 1 | x # xs \<Rightarrow> x)"

text \<open>\<open>maxAllComplete()\<close>: "the largest k such that every 0..k is Complete" (\<open>-1\<close> when \<open>0\<close> is
  not). \<open>prefixEnd xs k\<close> is the last index of the run \<open>k, k + 1, ...\<close> that the ascending list
  \<open>xs\<close> starts with, and \<open>k - 1\<close> when there is none.\<close>

fun prefixEnd :: "int list \<Rightarrow> int \<Rightarrow> int" where
  "prefixEnd [] k = k - 1"
| "prefixEnd (x # xs) k = (if x = k then prefixEnd xs (k + 1) else k - 1)"

definition sm_maxAllComplete :: "StatusManager \<Rightarrow> int" where
  "sm_maxAllComplete m = prefixEnd (complete m) 0"

definition sm_countComplete :: "StatusManager \<Rightarrow> int" where
  "sm_countComplete m = int (length (complete m))"

text \<open>\<open>getRevalidationRange(from)\<close>: "the set of Complete indices \<open>\<ge>\<close> some lower bound".\<close>

definition sm_getRevalidationRange :: "StatusManager \<Rightarrow> int \<Rightarrow> int list" where
  "sm_getRevalidationRange m from = filter (\<lambda>i. from \<le> i) (complete m)"

subsection \<open>Multi-version map\<close>

text \<open>
  Modelled from the spec: the \<open>MVHashMap\<close> of section 4.1, whose source is not among the files at
  hand: the cells, found by key and transaction index.
\<close>

datatype 'v cell = Written int 'v | Estimate int

type_synonym ('k, 'v) MVHashMap = "(('k \<times> int) \<times> 'v cell) list"

datatype 'v MVReadResult = MVReadResultNone | MVReadResultDone int int 'v | MVReadResultDependency int

definition ReadKindMap :: int where "ReadKindMap = 0"
definition ReadKindStorage :: int where "ReadKindStorage = 1"

definition mv_Delete :: "('k, 'v) MVHashMap \<Rightarrow> 'k \<Rightarrow> int \<Rightarrow> ('k, 'v) MVHashMap" where
  "mv_Delete m k ti = filter (\<lambda>c. fst c \<noteq> (k, ti)) m"

definition mv_Write :: "('k, 'v) MVHashMap \<Rightarrow> 'k \<Rightarrow> Version \<Rightarrow> 'v \<Rightarrow> ('k, 'v) MVHashMap" where
  "mv_Write m k v val = ((k, TxnIndex v), Written (Incarnation v) val) # mv_Delete m k (TxnIndex v)"

definition mv_FlushMVWriteSet :: "('k, 'v) MVHashMap \<Rightarrow> ('k, 'v) WriteDescriptor list \<Rightarrow> ('k, 'v) MVHashMap" where
  "mv_FlushMVWriteSet m writes = fold (\<lambda>w m'. mv_Write m' (Path w) (V w) (Val w)) writes m"

text \<open>\<open>MarkEstimate(k, ti)\<close>: "converts the cell at (k, ti), if any, into Estimate preserving its
  last incarnation".\<close>

definition mv_MarkEstimate :: "('k, 'v) MVHashMap \<Rightarrow> 'k \<Rightarrow> int \<Rightarrow> ('k, 'v) MVHashMap" where
  "mv_MarkEstimate m k ti =
     map (\<lambda>c. if fst c = (k, ti)
              then (fst c, Estimate (case snd c of Written inc val \<Rightarrow> inc | Estimate inc \<Rightarrow> inc))
              else c) m"

text \<open>\<open>Read(k, ti)\<close>: "returns the entry under k with the largest stored TxnIndex j < ti".\<close>

definition mv_Read :: "('k, 'v) MVHashMap \<Rightarrow> 'k \<Rightarrow> int \<Rightarrow> 'v MVReadResult" where
  "mv_Read m k ti =
     (case filter (\<lambda>c. fst (fst c) = k \<and> snd (fst c) < ti) m of
        [] \<Rightarrow> MVReadResultNone
      | c # cs \<Rightarrow>
          (let j = Max (set (map (\<lambda>c. snd (fst c)) (c # cs))) in
           case map_of m (k, j) of
             Some (Written inc val) \<Rightarrow> MVReadResultDone j inc val
           | Some (Estimate inc) \<Rightarrow> MVReadResultDependency j
           | None \<Rightarrow> MVReadResultNone))"

subsection \<open>\<open>ValidateVersion\<close>\<close>

text \<open>
  Modelled from the spec: \<open>ValidateVersion\<close> of section 4.3, whose source is not among the files
  at hand. Every read of \<open>inputs[ti]\<close> is read again: an estimate makes it invalid; a read of kind
  Map is valid when the same version is found; a read of kind Storage is valid when nothing is
  found and no Complete \<open>j < ti\<close> has the path in its write set.
\<close>

definition validRead ::
  "int \<Rightarrow> ('k, 'v) TxnInputOutput \<Rightarrow> ('k, 'v) MVHashMap \<Rightarrow> StatusManager \<Rightarrow> 'k ReadDescriptor \<Rightarrow> bool" where
  "validRead ti io m sm r =
     (case mv_Read m (rd_Path r) ti of
        MVReadResultDependency j \<Rightarrow> False
      | MVReadResultDone j inc val \<Rightarrow>
          rd_Kind r = ReadKindMap \<and> TxnIndex (rd_V r) = j \<and> Incarnation (rd_V r) = inc
      | MVReadResultNone \<Rightarrow>
          rd_Kind r = ReadKindStorage \<and>
          (\<forall>j \<in> set (complete sm). j < ti \<longrightarrow>
             (case slice_get (outputs io) j of Inl p \<Rightarrow> True | Inr ws \<Rightarrow> rd_Path r \<notin> paths ws)))"

definition sm_ValidateVersion ::
  "int \<Rightarrow> ('k, 'v) TxnInputOutput \<Rightarrow> ('k, 'v) MVHashMap \<Rightarrow> StatusManager \<Rightarrow> bool" where
  "sm_ValidateVersion ti io m sm =
     (case slice_get (inputs io) ti of
        Inl p \<Rightarrow> False
      | Inr rs \<Rightarrow> list_all (validRead ti io m sm) rs)"

text \<open>The operations together, for keys and values that are numbers.\<close>

definition spec_ops :: "(StatusManager, (nat, nat) MVHashMap, nat, nat) blockstm_ops" where
  "spec_ops =
     \<lparr>makeStatusManager = sm_makeStatusManager, pushPending = sm_pushPending,
      pushPendingSet = sm_pushPendingSet, takeNextPending = sm_takeNextPending,
      markComplete = sm_markComplete, clearInProgress = sm_clearInProgress,
      clearComplete = sm_clearComplete, clearPending = sm_clearPending,
      addDependencies = sm_addDependencies, removeDependency = sm_removeDependency,
      checkPending = sm_checkPending, blockCount = sm_blockCount, minPending = sm_minPending,
      maxAllComplete = sm_maxAllComplete, countComplete = sm_countComplete,
      getRevalidationRange = sm_getRevalidationRange,
      MakeMVHashMap = [], FlushMVWriteSet = mv_FlushMVWriteSet, Delete = mv_Delete,
      MarkEstimate = mv_MarkEstimate, ValidateVersion = sm_ValidateVersion\<rparr>"

subsection \<open>Tasks with a fixed behaviour\<close>

text \<open>
  A task object that carries the error, the reads and the writes every call of \<open>Execute\<close> ends
  with; \<open>Execute\<close> leaves the task and the map as they are. Keys, values and addresses are
  numbers, other errors are strings.
\<close>

record fixedTask =
  ft_err :: "string exec_error option"
  ft_reads :: "nat ReadDescriptor list"
  ft_writes :: "(nat, nat) WriteDescriptor list"
  ft_sender :: nat

definition fixed_ops :: "(fixedTask, (nat, nat) MVHashMap, nat, nat, string, nat) ExecTask" where
  "fixed_ops =
     \<lparr>Execute = (\<lambda>t m incarnation. (ft_err t, t, m)),
      MVReadList = ft_reads, MVWriteList = ft_writes, MVFullWriteList = ft_writes,
      Sender = ft_sender\<rparr>"


subsection \<open>Concrete states\<close>

text \<open>A state given by the parts that differ between the examples; no job or result is in a
  channel and the counters are zero.\<close>

definition stateWith ::
  "'t list \<Rightarrow> 'sm \<Rightarrow> 'sm \<Rightarrow> 'mv \<Rightarrow> ('k, 'v) TxnInputOutput \<Rightarrow> int list \<Rightarrow> (int \<Rightarrow> int list)
     \<Rightarrow> ('t, 'sm, 'mv, 'k, 'v, 'e, 'a) exec_state" where
  "stateWith ts et vt m io incs deps =
     \<lparr>tasks = ts, procs = [0 .. numSpeculativeProcs + numGoProcs - 1],
      chTasks = [], chSpeculativeTasks = [], chResults = [], chSpeculativeResults = [],
      cntExec = 0, cntSuccess = 0, cntAbort = 0, cntTotalValidations = 0, cntValidationFail = 0,
      mvh = m, execTasks = et, validateTasks = vt, lastTxIO = io, txIncarnations = incs,
      diagExecSuccess = replicate (length ts) 0, diagExecAbort = replicate (length ts) 0,
      estimateDeps = deps\<rparr>"

definition wr :: "nat \<Rightarrow> int \<Rightarrow> int \<Rightarrow> nat \<Rightarrow> (nat, nat) WriteDescriptor" where
  "wr k ti inc val = \<lparr>Path = k, V = \<lparr>TxnIndex = ti, Incarnation = inc\<rparr>, Val = val\<rparr>"

definition idle :: fixedTask where
  "idle = \<lparr>ft_err = None, ft_reads = [], ft_writes = [], ft_sender = 0\<rparr>"

text \<open>Two tasks; task 1 is complete and validated, task 0 wrote the paths 1 and 2 at incarnation
  0, was invalidated and has run again.\<close>

definition reexecuted ::
  "(fixedTask, StatusManager, (nat, nat) MVHashMap, nat, nat, string, nat) exec_state" where
  "reexecuted =
     stateWith [idle, idle]
       \<lparr>pending = [], inProgress = [0], complete = [1], dependency = []\<rparr>
       \<lparr>pending = [], inProgress = [], complete = [1], dependency = []\<rparr>
       [((1, 0), Written 1 5), ((3, 0), Written 1 7), ((2, 0), Estimate 0)]
       \<lparr>inputs = [[], []], outputs = [[wr 1 0 0 5, wr 2 0 0 6], []],
        allOutputs = [[wr 1 0 0 5, wr 2 0 0 6], []]\<rparr>
       [1, 0] (\<lambda>i. [])"

text \<open>The result of incarnation 1 of task 0, which wrote the paths 1 and 3.\<close>

definition reexecutedResult :: "(nat, nat, string) ExecResult" where
  "reexecutedResult =
     \<lparr>err = None, ver = \<lparr>TxnIndex = 0, Incarnation = 1\<rparr>, txIn = [],
      txOut = [wr 1 0 1 5, wr 3 0 1 7], txAllOut = [wr 1 0 1 5, wr 3 0 1 7]\<rparr>"

text \<open>Three tasks in progress; task 2 waits for the tasks 0 and 1, \<open>deps\<close> being its list of
  estimated dependencies.\<close>

definition waiting ::
  "int list \<Rightarrow> (fixedTask, StatusManager, (nat, nat) MVHashMap, nat, nat, string, nat) exec_state" where
  "waiting deps =
     stateWith [idle, idle, idle]
       \<lparr>pending = [], inProgress = [0, 1, 2], complete = [], dependency = [(0, 2), (1, 2)]\<rparr>
       \<lparr>pending = [], inProgress = [], complete = [], dependency = []\<rparr>
       []
       \<lparr>inputs = [[], [], []], outputs = [[], [], []], allOutputs = [[], [], []]\<rparr>
       [0, 0, 2] ((\<lambda>i. [])(2 := deps))"

text \<open>The result of an execution of task \<open>ti\<close> at incarnation \<open>inc\<close> that ended with the error \<open>e\<close>.\<close>

definition failedResult :: "int \<Rightarrow> int \<Rightarrow> string exec_error \<Rightarrow> (nat, nat, string) ExecResult" where
  "failedResult ti inc e =
     \<lparr>err = Some e, ver = \<lparr>TxnIndex = ti, Incarnation = inc\<rparr>, txIn = [], txOut = [], txAllOut = []\<rparr>"




subsection \<open>The pending queue of a status manager\<close>

text \<open>
  Modelled from the spec: what section 4.2 says of \<open>minPending\<close> and \<open>takeNextPending\<close>, whose
  source is not among the files at hand, as a property of an implementation. \<open>pend m\<close> is the
  queue of the Pending indices of \<open>m\<close> in the order in which they are taken (ascending, "smallest
  first"). \<open>minPending()\<close> is "the smallest Pending index, or -1"; \<open>takeNextPending()\<close> returns
  that index, or \<open>-1\<close>, and "pops" it.
\<close>

definition pendingQueue :: "('sm, 'mv, 'k, 'v) blockstm_ops \<Rightarrow> ('sm \<Rightarrow> int list) \<Rightarrow> bool" where
  "pendingQueue ops pend \<longleftrightarrow>
     (\<forall>m. minPending ops m = (case pend m of [] \<Rightarrow> - 1 | x # xs \<Rightarrow> x)
        \<and> fst (takeNextPending ops m) = (case pend m of [] \<Rightarrow> - 1 | x # xs \<Rightarrow> x)
        \<and> pend (snd (takeNextPending ops m)) = tl (pend m))"

text \<open>The job that the dispatch of index \<open>i\<close> in the state \<open>st\<close> sends.\<close>

definition jobOf ::
  "('t, 'mv, 'k, 'v, 'e, 'a) ExecTask \<Rightarrow> ('t, 'sm, 'mv, 'k, 'v, 'e, 'a) exec_state \<Rightarrow> int
     \<Rightarrow> 'a ExecVersionView" where
  "jobOf T st i =
     \<lparr>ev_ver = \<lparr>TxnIndex = i, Incarnation = txIncarnations st ! nat i\<rparr>, ev_et = i,
      ev_sender = Sender T (tasks st ! nat i)\<rparr>"


text \<open>The indices sent to \<open>chSpeculativeTasks\<close> by a step that started in \<open>st\<close> and ended as
  \<open>r\<close>.\<close>

definition dispatchedSpeculatively ::
  "('t, 'sm, 'mv, 'k, 'v, 'e, 'a) exec_state
     \<Rightarrow> (panic + ('t, 'sm, 'mv, 'k, 'v, 'e, 'a) exec_state) option \<Rightarrow> int list option" where
  "dispatchedSpeculatively st r =
     (case r of
        Some (Inr st') \<Rightarrow>
          Some (map (TxnIndex \<circ> ev_ver) (drop (length (chSpeculativeTasks st)) (chSpeculativeTasks st')))
      | _ \<Rightarrow> None)"


text \<open>Two tasks, both complete; task 0 has run again (incarnation 1), task 1 read path 1 as
  written by incarnation 0 of task 0 and wrote path 4; both wait for validation.\<close>

definition invalidated ::
  "(fixedTask, StatusManager, (nat, nat) MVHashMap, nat, nat, string, nat) exec_state" where
  "invalidated =
     stateWith [idle, idle]
       \<lparr>pending = [], inProgress = [], complete = [0, 1], dependency = []\<rparr>
       \<lparr>pending = [0, 1], inProgress = [], complete = [], dependency = []\<rparr>
       [((1, 0), Written 1 5), ((3, 0), Written 1 7), ((4, 1), Written 0 9)]
       \<lparr>inputs = [[], [\<lparr>rd_Path = 1, rd_Kind = ReadKindMap, rd_V = \<lparr>TxnIndex = 0, Incarnation = 0\<rparr>\<rparr>]],
        outputs = [[wr 1 0 1 5, wr 3 0 1 7], [wr 4 1 0 9]],
        allOutputs = [[wr 1 0 1 5, wr 3 0 1 7], [wr 4 1 0 9]]\<rparr>
       [1, 0] (\<lambda>i. [])"


text \<open>Twenty-six tasks, none validated; the tasks 0 to 24 are in progress and task 25 is pending.\<close>

definition farAhead ::
  "(fixedTask, StatusManager, (nat, nat) MVHashMap, nat, nat, string, nat) exec_state" where
  "farAhead =
     stateWith (replicate 26 idle)
       \<lparr>pending = [25], inProgress = map int [0 ..< 25], complete = [], dependency = []\<rparr>
       \<lparr>pending = [], inProgress = [], complete = [], dependency = []\<rparr>
       []
       (MakeTxnInputOutput 26)
       (replicate 26 0) (\<lambda>i. [])"


text \<open>Two tasks, both pending, none validated; task 0 is at incarnation 1.\<close>

definition ready ::
  "(fixedTask, StatusManager, (nat, nat) MVHashMap, nat, nat, string, nat) exec_state" where
  "ready =
     stateWith [idle, idle]
       \<lparr>pending = [0, 1], inProgress = [], complete = [], dependency = []\<rparr>
       \<lparr>pending = [], inProgress = [], complete = [], dependency = []\<rparr>
       []
       (MakeTxnInputOutput 2)
       [1, 0] (\<lambda>i. [])"

subsection \<open>Results that end the run\<close>



subsection \<open>Batches of one task\<close>

text \<open>A task that fails with another error at every execution, and one that aborts with
  \<open>Dependency = -1\<close> at every execution.\<close>

definition failing :: fixedTask where
  "failing = \<lparr>ft_err = Some (OtherError ''boom''), ft_reads = [], ft_writes = [], ft_sender = 0\<rparr>"

definition aborting :: fixedTask where
  "aborting = \<lparr>ft_err = Some (ErrExecAbortError (- 1)), ft_reads = [], ft_writes = [], ft_sender = 0\<rparr>"


text \<open>The run of a batch of the one task \<open>t\<close>: after the initialisation, with the job for
  incarnation 0 in the speculative queue (\<open>dispatched\<close>), and once a worker has taken that job
  (\<open>started\<close>).\<close>

definition started ::
  "fixedTask \<Rightarrow> (fixedTask, StatusManager, (nat, nat) MVHashMap, nat, nat, string, nat) exec_state" where
  "started t =
     (stateWith [t]
        \<lparr>pending = [], inProgress = [0], complete = [], dependency = []\<rparr>
        \<lparr>pending = [], inProgress = [], complete = [], dependency = []\<rparr>
        []
        (MakeTxnInputOutput 1)
        [0] (\<lambda>i. []))
     \<lparr>cntExec := 1\<rparr>"

definition dispatched ::
  "fixedTask \<Rightarrow> (fixedTask, StatusManager, (nat, nat) MVHashMap, nat, nat, string, nat) exec_state" where
  "dispatched t =
     (started t)\<lparr>chSpeculativeTasks :=
        [\<lparr>ev_ver = \<lparr>TxnIndex = 0, Incarnation = 0\<rparr>, ev_et = 0, ev_sender = ft_sender t\<rparr>]\<rparr>"


text \<open>The run of the batch of the aborting task: with the result of the worker in the channel,
  and after the coordinator has handled it.\<close>

definition abortReported ::
  "(fixedTask, StatusManager, (nat, nat) MVHashMap, nat, nat, string, nat) exec_state" where
  "abortReported =
     (started aborting)\<lparr>chSpeculativeResults := [failedResult 0 0 (ErrExecAbortError (- 1))]\<rparr>"

definition blocked ::
  "(fixedTask, StatusManager, (nat, nat) MVHashMap, nat, nat, string, nat) exec_state" where
  "blocked =
     (started aborting)
       \<lparr>execTasks := \<lparr>pending = [], inProgress = [], complete = [], dependency = [(0, 0)]\<rparr>,
        estimateDeps := (\<lambda>i. [])(0 := [- 1]), txIncarnations := [1], diagExecAbort := [1],
        cntAbort := 1\<rparr>"


text \<open>The run of the batch of the one task \<open>idle\<close> when the coordinator has handled and
  validated its result.\<close>

definition finished ::
  "(fixedTask, StatusManager, (nat, nat) MVHashMap, nat, nat, string, nat) exec_state" where
  "finished =
     (started idle)
       \<lparr>execTasks := \<lparr>pending = [], inProgress = [], complete = [0], dependency = []\<rparr>,
        validateTasks := \<lparr>pending = [], inProgress = [], complete = [0], dependency = []\<rparr>,
        diagExecSuccess := [1], cntSuccess := 1, cntTotalValidations := 1\<rparr>"


text \<open>The state \<open>waiting [0]\<close> after the coordinator has handled an abort of task 2 with
  \<open>Dependency = -1\<close>.\<close>

definition reincarnated ::
  "(fixedTask, StatusManager, (nat, nat) MVHashMap, nat, nat, string, nat) exec_state" where
  "reincarnated =
     (waiting [0, 1])
       \<lparr>execTasks := \<lparr>pending = [], inProgress = [0, 1], complete = [], dependency = [(0, 2), (1, 2)]\<rparr>,
        txIncarnations := [0, 0, 3], diagExecAbort := [0, 0, 1], cntAbort := 1\<rparr>"

subsection \<open>A batch of twenty-two independent tasks\<close>

text \<open>Twenty-two tasks that read and write nothing and succeed, each with a sender of its own.\<close>

definition independent22 :: "fixedTask list" where
  "independent22 = map (\<lambda>i. idle\<lparr>ft_sender := i\<rparr>) [0, 1, 2, 3, 4, 5, 6, 7, 8, 9, 10, 11, 12, 13, 14, 15, 16, 17, 18, 19, 20, 21]"

text \<open>The job of task \<open>i\<close> at incarnation 0.\<close>

definition firstJob :: "nat \<Rightarrow> nat ExecVersionView" where
  "firstJob i = \<lparr>ev_ver = \<lparr>TxnIndex = int i, Incarnation = 0\<rparr>, ev_et = int i, ev_sender = i\<rparr>"

text \<open>
  The state of the twenty-two tasks when the coordinator loop starts: the tasks 0 to 15 are on
  \<open>chSpeculativeTasks\<close>, the tasks 16 to 21 are pending.
\<close>

definition launched ::
  "(fixedTask, StatusManager, (nat, nat) MVHashMap, nat, nat, string, nat) exec_state" where
  "launched =
     (stateWith independent22
        \<lparr>pending = [16, 17, 18, 19, 20, 21], inProgress = [0, 1, 2, 3, 4, 5, 6, 7, 8, 9, 10, 11, 12, 13, 14, 15], complete = [], dependency = []\<rparr>
        \<lparr>pending = [], inProgress = [], complete = [], dependency = []\<rparr>
        []
        (MakeTxnInputOutput 22)
        (replicate 22 0) (\<lambda>i. []))
     \<lparr>cntExec := 16, chSpeculativeTasks := map firstJob [0, 1, 2, 3, 4, 5, 6, 7, 8, 9, 10, 11, 12, 13, 14, 15]\<rparr>"

text \<open>The result of a successful execution that read and wrote nothing.\<close>

definition okResult :: "int \<Rightarrow> int \<Rightarrow> (nat, nat, string) ExecResult" where
  "okResult ti inc =
     \<lparr>err = None, ver = \<lparr>TxnIndex = ti, Incarnation = inc\<rparr>, txIn = [], txOut = [], txAllOut = []\<rparr>"

text \<open>
  The state after the first iteration of the coordinator, on the result of task 0: task 0 is
  validated, task 16 is on \<open>chTasks\<close> and the tasks 17 to 21 have joined \<open>chSpeculativeTasks\<close>.
\<close>

definition firstValidated ::
  "(fixedTask, StatusManager, (nat, nat) MVHashMap, nat, nat, string, nat) exec_state" where
  "firstValidated =
     launched
       \<lparr>chTasks := [firstJob 16],
        chSpeculativeTasks := map firstJob [1, 2, 3, 4, 5, 6, 7, 8, 9, 10, 11, 12, 13, 14, 15, 17, 18, 19, 20, 21],
        cntExec := 22, cntSuccess := 1, cntTotalValidations := 1,
        execTasks := \<lparr>pending = [], inProgress = [1, 2, 3, 4, 5, 6, 7, 8, 9, 10, 11, 12, 13, 14, 15, 16, 17, 18, 19, 20, 21], complete = [0], dependency = []\<rparr>,
        validateTasks := \<lparr>pending = [], inProgress = [], complete = [0], dependency = []\<rparr>,
        diagExecSuccess := (replicate 22 0)[0 := 1]\<rparr>"

text \<open>
  The configurations of the run of the batch of the one aborting task: the job is in the
  speculative queue; a speculative worker has received it, has executed it, is about to send its
  result; the result is in the channel; the coordinator has handled it.
\<close>

definition abortingRun ::
  "(fixedTask, StatusManager, (nat, nat) MVHashMap, nat, nat, string, nat) configuration \<Rightarrow> bool" where
  "abortingRun cfg \<longleftrightarrow>
     cfg = inLoop (dispatched aborting) \<or> cfg = inLoop abortReported \<or> cfg = inLoop blocked
     \<or> (\<exists>p w. 0 \<le> p \<and> p < numSpeculativeProcs
           \<and> (w = Received \<lparr>ev_ver = \<lparr>TxnIndex = 0, Incarnation = 0\<rparr>, ev_et = 0, ev_sender = 0\<rparr>
              \<or> w = Executed (failedResult 0 0 (ErrExecAbortError (- 1)))
              \<or> w = Flushed (failedResult 0 0 (ErrExecAbortError (- 1))))
           \<and> cfg = \<lparr>vars = started aborting, workers = (\<lambda>q. Waiting)(p := w), coord = InLoop\<rparr>)"

text \<open>A batch of a failing task and a task that succeeds, with different senders.\<close>

definition failingFirst :: "fixedTask list" where
  "failingFirst = [failing, idle\<lparr>ft_sender := 1\<rparr>]"

section \<open>Properties\<close>

subsection \<open>\<open>hasNewWrite\<close>\<close>

lemma cmpMap_fill_get:
  "cmpMap_get (cmpMap_fill m ws) k \<longleftrightarrow> cmpMap_get m k \<or> k \<in> paths ws"
  by (induction ws arbitrary: m) (auto simp: cmpMap_get_def paths_def)

lemma hasNewWrite_scan_iff:
  "hasNewWrite_scan m vs \<longleftrightarrow> (\<exists>v \<in> set vs. \<not> cmpMap_get m (Path v))"
  by (induction vs) auto

lemma hasNewWrite_char:
  "hasNewWrite txo cmpSet \<longleftrightarrow>
     txo \<noteq> [] \<and> (length txo > length cmpSet \<or> \<not> paths txo \<subseteq> paths cmpSet)"
proof (cases cmpSet)
  case Nil
  then show ?thesis by (auto simp: hasNewWrite_def paths_def)
next
  case (Cons c cs)
  have "hasNewWrite_scan (cmpMap_fill [Path c \<mapsto> True] cs) txo \<longleftrightarrow> \<not> paths txo \<subseteq> paths cmpSet"
    unfolding hasNewWrite_scan_iff cmpMap_fill_get
    by (auto simp: Cons paths_def cmpMap_get_def)
  then show ?thesis
    by (auto simp: hasNewWrite_def Cons paths_def)
qed

lemma distinct_paths_card:
  "distinct (map Path ws) \<Longrightarrow> card (paths ws) = length ws"
  unfolding paths_def by (metis distinct_card length_map set_map)

lemma paths_card_le: "card (paths ws) \<le> length ws"
  unfolding paths_def by (metis card_length length_map set_map)

lemma longer_distinct_not_subset:
  assumes "distinct (map Path txo)" and "length cmpSet < length txo"
  shows "\<not> paths txo \<subseteq> paths cmpSet"
proof
  assume sub: "paths txo \<subseteq> paths cmpSet"
  have "finite (paths cmpSet)" by (simp add: paths_def)
  with sub have "card (paths txo) \<le> card (paths cmpSet)" by (rule card_mono[rotated])
  also have "\<dots> \<le> length cmpSet" by (rule paths_card_le)
  finally show False using assms by (simp add: distinct_paths_card)
qed

text \<open>
  Claim C2, as stated: \<open>hasNewWrite\<close> returns true if and only if the set of paths of \<open>txo\<close> is not a
  subset of the set of paths of \<open>cmpSet\<close>. It fails for a \<open>txo\<close> that is longer than \<open>cmpSet\<close>
  and writes one path twice: the test \<open>len(txo) > len(cmpSet)\<close> answers true, and no path is new.
\<close>

theorem hasNewWrite_duplicate_counterexample:
  "\<not> (hasNewWrite
         [\<lparr>Path = 1::nat, V = \<lparr>TxnIndex = 0, Incarnation = 1\<rparr>, Val = 5::nat\<rparr>,
          \<lparr>Path = 1, V = \<lparr>TxnIndex = 0, Incarnation = 1\<rparr>, Val = 6\<rparr>]
         [\<lparr>Path = 1, V = \<lparr>TxnIndex = 0, Incarnation = 0\<rparr>, Val = 5\<rparr>]
       \<longleftrightarrow>
       \<not> paths [\<lparr>Path = 1::nat, V = \<lparr>TxnIndex = 0, Incarnation = 1\<rparr>, Val = 5::nat\<rparr>,
                 \<lparr>Path = 1, V = \<lparr>TxnIndex = 0, Incarnation = 1\<rparr>, Val = 6\<rparr>]
           \<subseteq> paths [\<lparr>Path = 1, V = \<lparr>TxnIndex = 0, Incarnation = 0\<rparr>, Val = 5\<rparr>])"
  by (simp add: hasNewWrite_def paths_def)

text \<open>
  Claim C2, amended: for every \<open>txo\<close> in which no path occurs twice (a write set) and every list
  \<open>cmpSet\<close>, \<open>hasNewWrite\<close> returns true if and only if the set of paths of \<open>txo\<close> is not a subset
  of the set of paths of \<open>cmpSet\<close>.
\<close>

theorem hasNewWrite_iff_not_subset:
  assumes "distinct (map Path txo)"
  shows "hasNewWrite txo cmpSet \<longleftrightarrow> \<not> paths txo \<subseteq> paths cmpSet"
proof -
  have "paths txo \<subseteq> paths cmpSet" if "txo = []"
    using that by (simp add: paths_def)
  moreover have "\<not> paths txo \<subseteq> paths cmpSet" if "length cmpSet < length txo"
    using assms that by (rule longer_distinct_not_subset)
  ultimately show ?thesis
    unfolding hasNewWrite_char by blast
qed

theorem hasNewWrite_iff_not_subset_witness:
  "distinct (map Path
     [\<lparr>Path = 1::nat, V = \<lparr>TxnIndex = 0, Incarnation = 1\<rparr>, Val = 5::nat\<rparr>,
      \<lparr>Path = 2, V = \<lparr>TxnIndex = 0, Incarnation = 1\<rparr>, Val = 6\<rparr>])
   \<and> hasNewWrite
       [\<lparr>Path = 1::nat, V = \<lparr>TxnIndex = 0, Incarnation = 1\<rparr>, Val = 5::nat\<rparr>,
        \<lparr>Path = 2, V = \<lparr>TxnIndex = 0, Incarnation = 1\<rparr>, Val = 6\<rparr>]
       [\<lparr>Path = 1, V = \<lparr>TxnIndex = 0, Incarnation = 0\<rparr>, Val = 5\<rparr>,
        \<lparr>Path = 3, V = \<lparr>TxnIndex = 0, Incarnation = 0\<rparr>, Val = 7\<rparr>]
   \<and> \<not> paths [\<lparr>Path = 1::nat, V = \<lparr>TxnIndex = 0, Incarnation = 1\<rparr>, Val = 5::nat\<rparr>,
               \<lparr>Path = 2, V = \<lparr>TxnIndex = 0, Incarnation = 1\<rparr>, Val = 6\<rparr>]
         \<subseteq> paths [\<lparr>Path = 1, V = \<lparr>TxnIndex = 0, Incarnation = 0\<rparr>, Val = 5\<rparr>,
                  \<lparr>Path = 3, V = \<lparr>TxnIndex = 0, Incarnation = 0\<rparr>, Val = 7\<rparr>]"
  using hasNewWrite_iff_not_subset
    [of "[\<lparr>Path = 1::nat, V = \<lparr>TxnIndex = 0, Incarnation = 1\<rparr>, Val = 5::nat\<rparr>,
          \<lparr>Path = 2, V = \<lparr>TxnIndex = 0, Incarnation = 1\<rparr>, Val = 6\<rparr>]"
        "[\<lparr>Path = 1, V = \<lparr>TxnIndex = 0, Incarnation = 0\<rparr>, Val = 5\<rparr>,
          \<lparr>Path = 3, V = \<lparr>TxnIndex = 0, Incarnation = 0\<rparr>, Val = 7\<rparr>]"]
  by (simp add: paths_def)

subsection \<open>Slices and panics\<close>

lemma slice_set_ok [simp]:
  "0 \<le> i \<Longrightarrow> i < int (length xs) \<Longrightarrow> slice_set xs i x = Inr (xs[nat i := x])"
  by (simp add: slice_set_def)

lemma slice_get_ok [simp]:
  "0 \<le> i \<Longrightarrow> i < int (length xs) \<Longrightarrow> slice_get xs i = Inr (xs ! nat i)"
  by (simp add: slice_get_def)

lemma slice_incr_ok [simp]:
  "0 \<le> i \<Longrightarrow> i < int (length xs) \<Longrightarrow> slice_incr xs i = Inr (xs[nat i := xs ! nat i + 1])"
  by (simp add: slice_incr_def)

lemma andThen_Inr [simp]: "andThen (Inr x) f = f x"
  by (simp add: andThen_def)

lemma andThen_Inl [simp]: "andThen (Inl p) f = Inl p"
  by (simp add: andThen_def)

subsection \<open>A successful result\<close>

lemma cmpMap_fill_None:
  "cmpMap_fill m ws k = None \<longleftrightarrow> m k = None \<and> k \<notin> paths ws"
  by (induction ws arbitrary: m) (auto simp: paths_def)

lemma deleteRemoved_fold:
  "deleteRemoved ops m (cmpMap_fill Map.empty new) prev ti =
     fold (\<lambda>p m'. Delete ops m' p ti) (filter (\<lambda>p. p \<notin> paths new) (map Path prev)) m"
  by (induction prev arbitrary: m) (auto simp: cmpMap_fill_None)

lemma new_path_hasNewWrite: "\<not> paths txo \<subseteq> paths cmpSet \<Longrightarrow> hasNewWrite txo cmpSet"
  unfolding hasNewWrite_char by (auto simp: paths_def)

text \<open>
  Claim C3: the coordinator receives a successful result for \<open>ti\<close>, an index of the tables. The
  iteration goes on with a state \<open>st'\<close> in which \<open>inputs[ti]\<close>, \<open>outputs[ti]\<close> and \<open>allOutputs[ti]\<close>
  hold the sets of the result, \<open>ti\<close> is pushed pending for validation, marked complete for
  execution and \<open>removeDependency(ti)\<close> is applied. When the incarnation is not 0, with \<open>prev\<close> the
  \<open>allOutputs[ti]\<close> recorded before: the revalidation range from \<open>ti + 1\<close> is pushed pending for
  validation first when \<open>hasNewWrite\<close> holds, which it does when a path of the new \<open>allOutputs\<close> is
  absent from \<open>prev\<close>; and \<open>Delete(path, ti)\<close> is applied to the map for the paths of \<open>prev\<close> absent
  from the new \<open>allOutputs\<close>, in the order of \<open>prev\<close>.
\<close>

theorem handleResult_success:
  fixes st :: "('t, 'sm, 'mv, 'k, 'v, 'e, 'a) exec_state"
    and ops :: "('sm, 'mv, 'k, 'v) blockstm_ops" and res :: "('k, 'v, 'e) ExecResult"
  assumes ok: "err res = None"
    and lo: "0 \<le> TxnIndex (ver res)"
    and len: "TxnIndex (ver res) < int (length (inputs (lastTxIO st)))"
      "TxnIndex (ver res) < int (length (outputs (lastTxIO st)))"
      "TxnIndex (ver res) < int (length (allOutputs (lastTxIO st)))"
      "TxnIndex (ver res) < int (length (diagExecSuccess st))"
  defines "ti \<equiv> TxnIndex (ver res)"
  defines "prev \<equiv> allOutputs (lastTxIO st) ! nat ti"
  defines "reval \<equiv> getRevalidationRange ops (execTasks st) (ti + 1)"
  shows "\<exists>st'. handleResult ops st res = Inr (Continue st')
      \<and> (Incarnation (ver res) \<noteq> 0 \<longrightarrow>
           (\<not> paths (txAllOut res) \<subseteq> paths prev \<longrightarrow>
              validateTasks st' = pushPending ops (pushPendingSet ops (validateTasks st) reval) ti)
         \<and> validateTasks st' =
             pushPending ops (if hasNewWrite (txAllOut res) prev
                              then pushPendingSet ops (validateTasks st) reval
                              else validateTasks st) ti
         \<and> mvh st' = fold (\<lambda>p m. Delete ops m p ti)
                       (filter (\<lambda>p. p \<notin> paths (txAllOut res)) (map Path prev)) (mvh st))
      \<and> (Incarnation (ver res) = 0 \<longrightarrow>
           validateTasks st' = pushPending ops (validateTasks st) ti \<and> mvh st' = mvh st)
      \<and> lastTxIO st' =
          \<lparr>inputs = (inputs (lastTxIO st))[nat ti := txIn res],
           outputs = (outputs (lastTxIO st))[nat ti := txOut res],
           allOutputs = (allOutputs (lastTxIO st))[nat ti := txAllOut res]\<rparr>
      \<and> execTasks st' = removeDependency ops (markComplete ops (execTasks st) ti) ti"
  using assms
  by (cases "lastTxIO st")
     (auto simp: handleResult_def handleSuccess_def recordRead_def recordWrite_def recordAllWrite_def
        AllWriteSet_def Let_def deleteRemoved_fold new_path_hasNewWrite)

lemma reexecuted_in_range:
  "err reexecutedResult = None" "0 \<le> TxnIndex (ver reexecutedResult)"
  "TxnIndex (ver reexecutedResult) < int (length (inputs (lastTxIO reexecuted)))"
  "TxnIndex (ver reexecutedResult) < int (length (outputs (lastTxIO reexecuted)))"
  "TxnIndex (ver reexecutedResult) < int (length (allOutputs (lastTxIO reexecuted)))"
  "TxnIndex (ver reexecutedResult) < int (length (diagExecSuccess reexecuted))"
  by (simp_all add: reexecuted_def reexecutedResult_def stateWith_def)

theorem handleResult_success_witness:
  "\<exists>st'. handleResult spec_ops reexecuted reexecutedResult = Inr (Continue st')
     \<and> pending (validateTasks st') = [0, 1]
     \<and> mvh st' = [((1, 0), Written 1 5), ((3, 0), Written 1 7)]
     \<and> allOutputs (lastTxIO st') = [[wr 1 0 1 5, wr 3 0 1 7], []]
     \<and> complete (execTasks st') = [0, 1]"
  using handleResult_success [OF reexecuted_in_range, of spec_ops]
  apply (elim exE conjE)
  apply (rule exI, intro conjI, assumption)
     apply (simp add: reexecuted_def reexecutedResult_def stateWith_def spec_ops_def wr_def
       hasNewWrite_def sm_pushPending_def sm_pushPendingSet_def sm_getRevalidationRange_def
       insertInList_def cmpMap_get_def)
    apply (simp add: reexecuted_def reexecutedResult_def stateWith_def spec_ops_def wr_def paths_def
       mv_Delete_def)
   apply (simp add: reexecuted_def reexecutedResult_def stateWith_def)
  apply (simp add: reexecuted_def reexecutedResult_def stateWith_def spec_ops_def
      sm_markComplete_def sm_removeDependency_def insertInList_def sm_pushPendingSet_def)
  done

subsection \<open>An aborted execution\<close>

lemma popEstimates_eq:
  "popEstimates ops dep et ds =
     (fold (\<lambda>d et'. removeDependency ops et' d) (takeWhile (\<lambda>d. d > dep) (rev ds)) et,
      rev (dropWhile (\<lambda>d. d > dep) (rev ds)))"
proof (induction ops dep et ds rule: popEstimates.induct)
  case (1 ops dep et ds)
  show ?case
  proof (cases ds rule: rev_cases)
    case Nil
    then show ?thesis by (subst popEstimates.simps) simp
  next
    case (snoc ys y)
    have l: "ds ! (length ds - 1) = y" and b: "take (length ds - 1) ds = ys"
      by (simp_all add: snoc)
    show ?thesis
    proof (cases "y > dep")
      case True
      then have c: "length ds > 0 \<and> ds ! (length ds - 1) > dep"
        using l snoc by simp
      have "popEstimates ops dep et ds = popEstimates ops dep (removeDependency ops et y) ys"
        using c by (subst popEstimates.simps) (simp only: l b if_True simp_thms)
      also have "\<dots> = (fold (\<lambda>d et'. removeDependency ops et' d) (takeWhile (\<lambda>d. d > dep) (rev ys))
                          (removeDependency ops et y),
                        rev (dropWhile (\<lambda>d. d > dep) (rev ys)))"
        using "1.IH"[OF c] by (simp only: l b)
      finally show ?thesis using True by (simp add: snoc)
    next
      case False
      then have "\<not> (length ds > 0 \<and> ds ! (length ds - 1) > dep)"
        using l by simp
      then have "popEstimates ops dep et ds = (et, ds)"
        by (subst popEstimates.simps) (simp only: if_False simp_thms)
      then show ?thesis using False by (simp add: snoc)
    qed
  qed
qed

text \<open>
  Claim C4: the coordinator receives an \<open>ExecAbort\<close> result for \<open>ti\<close>, an index of the tables, with
  \<open>Dependency = dep \<ge> 0\<close>. The trailing elements of \<open>estimateDeps[ti]\<close> greater than \<open>dep\<close> are
  popped (\<open>popped\<close> lists them from the last one on) and \<open>removeDependency\<close> is applied to each, in
  that order; then \<open>addDependencies(dep, ti)\<close> is called, with the result \<open>added\<close>; then the
  in-progress flag of \<open>ti\<close> is cleared, \<open>ti\<close> is pushed pending exactly when \<open>addDependencies\<close>
  returned false, and \<open>txIncarnations[ti]\<close> is incremented.
\<close>

theorem handleResult_abort_dependency:
  fixes st :: "('t, 'sm, 'mv, 'k, 'v, 'e, 'a) exec_state"
    and ops :: "('sm, 'mv, 'k, 'v) blockstm_ops" and res :: "('k, 'v, 'e) ExecResult"
  assumes ab: "err res = Some (ErrExecAbortError dep)" and dep: "dep \<ge> 0"
    and lo: "0 \<le> TxnIndex (ver res)"
    and len: "TxnIndex (ver res) < int (length (txIncarnations st))"
      "TxnIndex (ver res) < int (length (diagExecAbort st))"
  defines "ti \<equiv> TxnIndex (ver res)"
  defines "popped \<equiv> takeWhile (\<lambda>d. d > dep) (rev (estimateDeps st ti))"
  defines "added \<equiv>
    addDependencies ops (fold (\<lambda>d et. removeDependency ops et d) popped (execTasks st)) dep ti"
  shows "\<exists>st'. handleResult ops st res = Inr (Continue st')
      \<and> estimateDeps st' =
          (estimateDeps st)(ti := rev (dropWhile (\<lambda>d. d > dep) (rev (estimateDeps st ti))))
      \<and> execTasks st' =
          (if fst added then clearInProgress ops (snd added) ti
           else pushPending ops (clearInProgress ops (snd added) ti) ti)
      \<and> txIncarnations st' = (txIncarnations st)[nat ti := txIncarnations st ! nat ti + 1]"
  using assms
  by (auto simp: handleResult_def handleAbort_def abortDependencies_def popEstimates_eq Let_def
      split: prod.splits)

lemma minus_one_negative: "(- 1 :: int) < 0"
  by simp

lemma waiting_in_range:
  "err (failedResult 2 2 e) = Some e"
  "0 \<le> TxnIndex (ver (failedResult 2 2 e))"
  "TxnIndex (ver (failedResult 2 2 e)) < int (length (txIncarnations (waiting deps)))"
  "TxnIndex (ver (failedResult 2 2 e)) < int (length (diagExecAbort (waiting deps)))"
  by (simp_all add: waiting_def failedResult_def stateWith_def)

theorem handleResult_abort_dependency_witness:
  "\<exists>st'. handleResult spec_ops (waiting [0, 1]) (failedResult 2 2 (ErrExecAbortError 0)) = Inr (Continue st')
     \<and> estimateDeps st' 2 = [0]
     \<and> execTasks st' = \<lparr>pending = [], inProgress = [0, 1], complete = [], dependency = [(0, 2)]\<rparr>
     \<and> txIncarnations st' = [0, 0, 3]"
  using handleResult_abort_dependency
    [where res = "failedResult 2 2 (ErrExecAbortError 0)" and dep = 0 and st = "waiting [0, 1]"
       and ops = spec_ops, OF waiting_in_range(1) order_refl waiting_in_range(2-4)]
  apply (elim exE conjE)
  apply (rule exI, intro conjI, assumption)
    apply (simp add: waiting_def failedResult_def stateWith_def)
   apply (simp add: waiting_def failedResult_def stateWith_def spec_ops_def sm_addDependencies_def
      sm_removeDependency_def sm_clearInProgress_def sm_pushPendingSet_def sm_pushPending_def)
  apply (simp add: waiting_def failedResult_def stateWith_def numeral_2_eq_2)
  done

text \<open>
  Claim C5: the coordinator receives an \<open>ExecAbort\<close> result for \<open>ti\<close>, an index of the tables, with
  a negative \<open>Dependency\<close> (\<open>-1\<close>). When \<open>blockCount[ti] \<ge> 0\<close>, \<open>estimate\<close> is the last element of
  \<open>estimateDeps[ti]\<close> (0 for the empty list), \<open>addDependencies(estimate, ti)\<close> is called, with the
  result \<open>added\<close>, and \<open>min(estimate + 1, ti - 1)\<close> is appended to \<open>estimateDeps[ti]\<close>. When
  \<open>blockCount[ti] < 0\<close>, no dependency is added, \<open>estimateDeps\<close> stays as it is and \<open>ti\<close> is pushed
  pending after \<open>clearInProgress\<close>. In both cases \<open>txIncarnations[ti]\<close> is incremented.
\<close>

theorem handleResult_abort_unknown:
  fixes st :: "('t, 'sm, 'mv, 'k, 'v, 'e, 'a) exec_state"
    and ops :: "('sm, 'mv, 'k, 'v) blockstm_ops" and res :: "('k, 'v, 'e) ExecResult"
  assumes ab: "err res = Some (ErrExecAbortError dep)" and dep: "dep < 0"
    and lo: "0 \<le> TxnIndex (ver res)"
    and len: "TxnIndex (ver res) < int (length (txIncarnations st))"
      "TxnIndex (ver res) < int (length (diagExecAbort st))"
  defines "ti \<equiv> TxnIndex (ver res)"
  defines "estimate \<equiv> (if estimateDeps st ti = [] then 0 else last (estimateDeps st ti))"
  defines "added \<equiv> addDependencies ops (execTasks st) estimate ti"
  shows "\<exists>st'. handleResult ops st res = Inr (Continue st')
      \<and> (blockCount ops (execTasks st) ti \<ge> 0 \<longrightarrow>
           estimateDeps st' = (estimateDeps st)(ti := estimateDeps st ti @ [min (estimate + 1) (ti - 1)])
         \<and> execTasks st' =
             (if fst added then clearInProgress ops (snd added) ti
              else pushPending ops (clearInProgress ops (snd added) ti) ti))
      \<and> (blockCount ops (execTasks st) ti < 0 \<longrightarrow>
           estimateDeps st' = estimateDeps st
         \<and> execTasks st' = pushPending ops (clearInProgress ops (execTasks st) ti) ti)
      \<and> txIncarnations st' = (txIncarnations st)[nat ti := txIncarnations st ! nat ti + 1]"
  using assms
  by (auto simp: handleResult_def handleAbort_def abortDependencies_def Let_def last_conv_nth min_def
      split: prod.splits)

theorem handleResult_abort_unknown_witness:
  "\<exists>st'. handleResult spec_ops (waiting [0]) (failedResult 2 2 (ErrExecAbortError (- 1))) = Inr (Continue st')
     \<and> estimateDeps st' 2 = [0, 1]
     \<and> execTasks st' = \<lparr>pending = [], inProgress = [0, 1], complete = [], dependency = [(0, 2), (1, 2)]\<rparr>
     \<and> txIncarnations st' = [0, 0, 3]"
  using handleResult_abort_unknown
    [where res = "failedResult 2 2 (ErrExecAbortError (- 1))" and dep = "- 1" and st = "waiting [0]"
       and ops = spec_ops, OF waiting_in_range(1) minus_one_negative waiting_in_range(2-4)]
  apply (elim exE conjE)
  apply (rule exI, intro conjI, assumption)
    apply (simp add: waiting_def failedResult_def stateWith_def spec_ops_def sm_blockCount_def)
   apply (simp add: waiting_def failedResult_def stateWith_def spec_ops_def sm_addDependencies_def
      sm_blockCount_def sm_clearInProgress_def)
  apply (simp add: waiting_def failedResult_def stateWith_def numeral_2_eq_2)
  done

subsection \<open>The empty batch\<close>

text \<open>
  Claim C10: for the empty batch \<open>ExecuteParallel\<close> returns a \<open>TxnInputOutput\<close> whose three arrays
  have length 0 and a nil error, and it returns before any channel, worker or \<open>MVHashMap\<close> exists
  (there is no state of the run), under every schedule and with no result received.
\<close>

theorem ExecuteParallel_empty_batch:
  "ExecuteParallel T ops [] sched =
     Some (Returned \<lparr>inputs = [], outputs = [], allOutputs = []\<rparr> None None, [])"
  by (simp add: ExecuteParallel_def MakeTxnInputOutput_def)

subsection \<open>The workers\<close>





subsection \<open>Validation\<close>

lemma pendingQueue_spec_ops: "pendingQueue spec_ops pending"
  by (auto simp: pendingQueue_def spec_ops_def sm_minPending_def sm_takeNextPending_def split: list.splits)

lemma drainValidate_queue:
  assumes q: "pendingQueue ops pend"
  shows "\<exists>vt'. drainValidate ops maxComplete vt acc =
            Some (acc @ takeWhile (\<lambda>x. x \<le> maxComplete \<and> 0 \<le> x) (pend vt), vt')
          \<and> pend vt' = dropWhile (\<lambda>x. x \<le> maxComplete \<and> 0 \<le> x) (pend vt)"
proof (induction "pend vt" arbitrary: vt acc)
  case Nil
  then have "minPending ops vt = - 1"
    using q by (simp add: pendingQueue_def)
  then show ?case
    using Nil[symmetric] by (subst drainValidate.simps) simp
next
  case (Cons x xs)
  have mp: "minPending ops vt = x" and tk: "fst (takeNextPending ops vt) = x"
    and rest: "pend (snd (takeNextPending ops vt)) = xs"
    using q Cons(2)[symmetric] by (simp_all add: pendingQueue_def)
  show ?case
  proof (cases "x \<le> maxComplete \<and> 0 \<le> x")
    case True
    from Cons(1)[OF rest[symmetric], of "acc @ [x]"]
    obtain vt' where "drainValidate ops maxComplete (snd (takeNextPending ops vt)) (acc @ [x]) =
            Some ((acc @ [x]) @ takeWhile (\<lambda>x. x \<le> maxComplete \<and> 0 \<le> x) xs, vt')"
      and "pend vt' = dropWhile (\<lambda>x. x \<le> maxComplete \<and> 0 \<le> x) xs"
      by (auto simp: rest)
    then show ?thesis
      using True mp tk Cons(2)[symmetric]
      by (subst drainValidate.simps) simp
  next
    case False
    then show ?thesis
      using mp Cons(2)[symmetric]
      by (subst drainValidate.simps) auto
  qed
qed

lemma markEstimates_fold:
  "markEstimates ops m ws tx = fold (\<lambda>p m'. MarkEstimate ops m' p tx) (map Path ws) m"
  by (induction ws arbitrary: m) auto

lemma validateOne_valid:
  assumes "ValidateVersion ops tx (lastTxIO s) (mvh s) (execTasks s)"
  shows "\<exists>s'. validateOne ops s tx = Inr s'
      \<and> validateTasks s' = markComplete ops (validateTasks s) tx
      \<and> execTasks s' = execTasks s \<and> mvh s' = mvh s \<and> txIncarnations s' = txIncarnations s"
  using assms by (simp add: validateOne_def Let_def)

lemma validateOne_invalid:
  assumes "\<not> ValidateVersion ops tx (lastTxIO s) (mvh s) (execTasks s)"
    and "0 \<le> tx" "tx < int (length (diagExecAbort s))" "tx < int (length (allOutputs (lastTxIO s)))"
      "tx < int (length (txIncarnations s))"
  shows "\<exists>s'. validateOne ops s tx = Inr s'
      \<and> mvh s' = fold (\<lambda>p m. MarkEstimate ops m p tx) (map Path (allOutputs (lastTxIO s) ! nat tx)) (mvh s)
      \<and> validateTasks s' =
          clearInProgress ops
            (pushPendingSet ops (validateTasks s) (getRevalidationRange ops (execTasks s) (tx + 1))) tx
      \<and> (if \<not> checkPending ops (execTasks s) tx \<and> blockCount ops (execTasks s) tx = - 1
          then execTasks s' = clearComplete ops (pushPending ops (execTasks s) tx) tx
             \<and> txIncarnations s' = (txIncarnations s)[nat tx := txIncarnations s ! nat tx + 1]
          else execTasks s' = execTasks s \<and> txIncarnations s' = txIncarnations s)"
  using assms by (simp add: validateOne_def Let_def AllWriteSet_def markEstimates_fold)


subsection \<open>Dispatch\<close>

lemma mkJob_ok:
  "0 \<le> i \<Longrightarrow> i < int (length (tasks st)) \<Longrightarrow> i < int (length (txIncarnations st))
     \<Longrightarrow> mkJob T st i = Inr (jobOf T st i)"
  by (simp add: mkJob_def jobOf_def)

lemma jobOf_cong:
  "tasks a = tasks b \<Longrightarrow> txIncarnations a = txIncarnations b \<Longrightarrow> jobOf T a = jobOf T b"
  by (rule ext) (simp add: jobOf_def)

lemma dispatchSpeculative_queue:
  fixes st :: "('t, 'sm, 'mv, 'k, 'v, 'e, 'a) exec_state"
  assumes q: "pendingQueue ops pend"
    and r: "\<forall>x \<in> set (pend (execTasks st)).
              0 \<le> x \<and> x < int (length (tasks st)) \<and> x < int (length (txIncarnations st))"
  shows "\<exists>st'. dispatchSpeculative T ops st = Some (Inr st')
      \<and> chSpeculativeTasks st' = chSpeculativeTasks st @ map (jobOf T st) (pend (execTasks st))
      \<and> chTasks st' = chTasks st \<and> pend (execTasks st') = []
      \<and> tasks st' = tasks st \<and> txIncarnations st' = txIncarnations st
      \<and> validateTasks st' = validateTasks st"
  using r
proof (induction "pend (execTasks st)" arbitrary: st)
  case Nil
  then have "minPending ops (execTasks st) = - 1"
    using q by (simp add: pendingQueue_def)
  then show ?case
    using Nil(1)[symmetric] by (subst dispatchSpeculative.simps) simp
next
  case (Cons x xs)
  have mp: "minPending ops (execTasks st) = x" and tk: "fst (takeNextPending ops (execTasks st)) = x"
    and rest: "pend (snd (takeNextPending ops (execTasks st))) = xs"
    using q Cons(2)[symmetric] by (simp_all add: pendingQueue_def)
  have x: "0 \<le> x" "x < int (length (tasks st))" "x < int (length (txIncarnations st))"
    and xs: "\<forall>y \<in> set xs. 0 \<le> y \<and> y < int (length (tasks st)) \<and> y < int (length (txIncarnations st))"
    using Cons(3) Cons(2)[symmetric] by simp_all
  define st1 where "st1 = st\<lparr>execTasks := snd (takeNextPending ops (execTasks st))\<rparr>"
  define st2 where "st2 = st1\<lparr>cntExec := cntExec st1 + 1,
      chSpeculativeTasks := chSpeculativeTasks st1 @ [jobOf T st x]\<rparr>"
  have j: "mkJob T st1 x = Inr (jobOf T st x)"
    using x mkJob_ok[of x st1 T] jobOf_cong[of st1 st T] by (simp add: st1_def)
  have p2: "xs = pend (execTasks st2)" by (simp add: st2_def st1_def rest)
  have r2: "\<forall>y \<in> set (pend (execTasks st2)).
      0 \<le> y \<and> y < int (length (tasks st2)) \<and> y < int (length (txIncarnations st2))"
    using xs by (simp add: st2_def st1_def rest)
  from Cons(1)[OF p2 r2]
  obtain st' where s: "dispatchSpeculative T ops st2 = Some (Inr st')"
    and c: "chSpeculativeTasks st' = chSpeculativeTasks st2 @ map (jobOf T st2) (pend (execTasks st2))"
    and o: "chTasks st' = chTasks st2" "pend (execTasks st') = []" "tasks st' = tasks st2"
      "txIncarnations st' = txIncarnations st2" "validateTasks st' = validateTasks st2"
    by auto
  have jj: "jobOf T st2 = jobOf T st"
    by (rule jobOf_cong) (simp_all add: st2_def st1_def)
  have step: "dispatchSpeculative T ops st = dispatchSpeculative T ops st2"
    using mp tk x j
    by (subst dispatchSpeculative.simps) (simp add: Let_def st1_def[symmetric] st2_def[symmetric])
  show ?case
    unfolding step Cons(2)[symmetric]
    using s c o
    by (intro exI[where x = st']) (simp add: jj p2[symmetric], simp add: st2_def st1_def)
qed


lemma farAhead_in_range:
  "\<forall>x \<in> set (pending (execTasks farAhead)).
     0 \<le> x \<and> x < int (length (tasks farAhead)) \<and> x < int (length (txIncarnations farAhead))"
  by (simp add: farAhead_def stateWith_def)

text \<open>
  The dispatch of lines 265 to 272 has no test against the validated prefix: with no task validated
  (\<open>maxAllComplete(validateTasks) = -1\<close>) and index 25 pending, it sends index 25 to
  \<open>chSpeculativeTasks\<close>.
\<close>

lemma dispatchPhase_far_ahead:
  "dispatchedSpeculatively farAhead (dispatchPhase fixed_ops spec_ops farAhead) = Some [25]
   \<and> \<not> 25 \<le> maxAllComplete spec_ops (validateTasks farAhead) + 20"
proof -
  have t: "dispatchTask fixed_ops spec_ops farAhead = Inr farAhead"
    by (simp add: dispatchTask_def farAhead_def stateWith_def spec_ops_def sm_minPending_def
        sm_maxAllComplete_def)
  from dispatchSpeculative_queue [OF pendingQueue_spec_ops farAhead_in_range, of fixed_ops]
  obtain st' where s: "dispatchSpeculative fixed_ops spec_ops farAhead = Some (Inr st')"
    and c: "chSpeculativeTasks st' =
              chSpeculativeTasks farAhead @ map (jobOf fixed_ops farAhead) (pending (execTasks farAhead))"
    by auto
  have "dispatchedSpeculatively farAhead (dispatchPhase fixed_ops spec_ops farAhead) = Some [25]"
    using t s c
    by (simp add: dispatchPhase_def dispatchedSpeculatively_def)
       (simp add: farAhead_def stateWith_def jobOf_def)
  moreover have "\<not> 25 \<le> maxAllComplete spec_ops (validateTasks farAhead) + 20"
    by (simp add: farAhead_def stateWith_def spec_ops_def sm_maxAllComplete_def)
  ultimately show ?thesis by (rule conjI)
qed

text \<open>
  Claim C7, amended, for a status manager whose pending queue is as the specification says and
  pending indices that are indices of \<open>tasks\<close> and \<open>txIncarnations\<close>. When an index is
  pending and the smallest one is at most \<open>maxAllComplete(validateTasks) + 20\<close> (\<open>near\<close>),
  exactly that one is sent to \<open>chTasks\<close>; then every remaining pending index is sent to
  \<open>chSpeculativeTasks\<close>, in the order of the queue and whatever its distance from the validated
  prefix, and no index is pending at the end.
\<close>

theorem dispatchPhase_queue:
  fixes st :: "('t, 'sm, 'mv, 'k, 'v, 'e, 'a) exec_state"
  assumes q: "pendingQueue ops pend"
    and r: "\<forall>x \<in> set (pend (execTasks st)).
              0 \<le> x \<and> x < int (length (tasks st)) \<and> x < int (length (txIncarnations st))"
  defines "near \<equiv> pend (execTasks st) \<noteq> []
                  \<and> hd (pend (execTasks st)) \<le> maxAllComplete ops (validateTasks st) + 20"
  shows "\<exists>st'. dispatchPhase T ops st = Some (Inr st')
      \<and> chTasks st' =
          chTasks st @ map (jobOf T st) (if near then [hd (pend (execTasks st))] else [])
      \<and> chSpeculativeTasks st' =
          chSpeculativeTasks st @
            map (jobOf T st) (if near then tl (pend (execTasks st)) else pend (execTasks st))
      \<and> pend (execTasks st') = []"
proof (cases near)
  case False
  have "dispatchTask T ops st = Inr st"
  proof (cases "pend (execTasks st)")
    case Nil
    then have "minPending ops (execTasks st) = - 1"
      using q by (simp add: pendingQueue_def)
    then show ?thesis by (simp add: dispatchTask_def)
  next
    case (Cons x xs)
    then have "minPending ops (execTasks st) = x"
      using q by (simp add: pendingQueue_def)
    then show ?thesis
      using False Cons by (simp add: dispatchTask_def near_def)
  qed
  then have d: "dispatchPhase T ops st = dispatchSpeculative T ops st"
    by (simp add: dispatchPhase_def)
  from dispatchSpeculative_queue[OF q r, of T] False show ?thesis
    unfolding d by auto
next
  case True
  then obtain x xs where p: "pend (execTasks st) = x # xs"
    by (cases "pend (execTasks st)") (auto simp: near_def)
  have le: "x \<le> maxAllComplete ops (validateTasks st) + 20"
    using True p by (simp add: near_def)
  have mp: "minPending ops (execTasks st) = x" and tk: "fst (takeNextPending ops (execTasks st)) = x"
    and rest: "pend (snd (takeNextPending ops (execTasks st))) = xs"
    using q p by (simp_all add: pendingQueue_def)
  have x: "0 \<le> x" "x < int (length (tasks st))" "x < int (length (txIncarnations st))"
    and xs: "\<forall>y \<in> set xs. 0 \<le> y \<and> y < int (length (tasks st)) \<and> y < int (length (txIncarnations st))"
    using r p by simp_all
  define st1 where "st1 = st\<lparr>execTasks := snd (takeNextPending ops (execTasks st))\<rparr>"
  define st2 where "st2 = st1\<lparr>cntExec := cntExec st1 + 1, chTasks := chTasks st1 @ [jobOf T st x]\<rparr>"
  have j: "mkJob T st1 x = Inr (jobOf T st x)"
    using x mkJob_ok[of x st1 T] jobOf_cong[of st1 st T] by (simp add: st1_def)
  have t: "dispatchTask T ops st = Inr st2"
    using mp tk x le j
    by (simp add: dispatchTask_def Let_def st1_def[symmetric] st2_def[symmetric])
  have d: "dispatchPhase T ops st = dispatchSpeculative T ops st2"
    using t by (simp add: dispatchPhase_def)
  have p2: "pend (execTasks st2) = xs" by (simp add: st2_def st1_def rest)
  have r2: "\<forall>y \<in> set (pend (execTasks st2)).
      0 \<le> y \<and> y < int (length (tasks st2)) \<and> y < int (length (txIncarnations st2))"
    using xs by (simp add: st2_def st1_def rest)
  have jj: "jobOf T st2 = jobOf T st"
    by (rule jobOf_cong) (simp_all add: st2_def st1_def)
  from dispatchSpeculative_queue[OF q r2, of T]
  obtain st' where s: "dispatchSpeculative T ops st2 = Some (Inr st')"
    and c: "chSpeculativeTasks st' = chSpeculativeTasks st2 @ map (jobOf T st2) (pend (execTasks st2))"
    and o: "chTasks st' = chTasks st2" "pend (execTasks st') = []"
    by auto
  show ?thesis
    unfolding d
    using s c o True
    by (intro exI[where x = st']) (simp add: jj p2 p, simp add: st2_def st1_def)
qed


lemma ready_in_range:
  "\<forall>x \<in> set (pending (execTasks ready)).
     0 \<le> x \<and> x < int (length (tasks ready)) \<and> x < int (length (txIncarnations ready))"
  by (simp add: ready_def stateWith_def)

theorem dispatchPhase_queue_witness:
  "\<exists>st'. dispatchPhase fixed_ops spec_ops ready = Some (Inr st')
     \<and> map ev_ver (chTasks st') = [\<lparr>TxnIndex = 0, Incarnation = 1\<rparr>]
     \<and> map ev_ver (chSpeculativeTasks st') = [\<lparr>TxnIndex = 1, Incarnation = 0\<rparr>]
     \<and> pending (execTasks st') = []"
  using dispatchPhase_queue
    [where ops = spec_ops and pend = pending and st = ready and T = fixed_ops,
     OF pendingQueue_spec_ops ready_in_range]
  apply (elim exE conjE)
  apply (rule exI, intro conjI, assumption)
    apply (simp add: ready_def stateWith_def spec_ops_def sm_maxAllComplete_def jobOf_def)
   apply (simp add: ready_def stateWith_def spec_ops_def sm_maxAllComplete_def jobOf_def)
  apply assumption
  done

subsection \<open>Validation of the drained indices\<close>

lemma validateOne_effect:
  fixes s :: "('t, 'sm, 'mv, 'k, 'v, 'e, 'a) exec_state"
  assumes "0 \<le> tx" "tx < int (length (diagExecAbort s))" "tx < int (length (allOutputs (lastTxIO s)))"
      "tx < int (length (txIncarnations s))"
  shows "\<exists>s'. validateOne ops s tx = Inr s'
      \<and> (if ValidateVersion ops tx (lastTxIO s) (mvh s) (execTasks s)
         then validateTasks s' = markComplete ops (validateTasks s) tx
            \<and> execTasks s' = execTasks s \<and> mvh s' = mvh s \<and> txIncarnations s' = txIncarnations s
         else mvh s' = fold (\<lambda>p m. MarkEstimate ops m p tx) (map Path (allOutputs (lastTxIO s) ! nat tx)) (mvh s)
            \<and> validateTasks s' =
                clearInProgress ops
                  (pushPendingSet ops (validateTasks s) (getRevalidationRange ops (execTasks s) (tx + 1))) tx
            \<and> (if \<not> checkPending ops (execTasks s) tx \<and> blockCount ops (execTasks s) tx = - 1
                then execTasks s' = clearComplete ops (pushPending ops (execTasks s) tx) tx
                   \<and> txIncarnations s' = (txIncarnations s)[nat tx := txIncarnations s ! nat tx + 1]
                else execTasks s' = execTasks s \<and> txIncarnations s' = txIncarnations s))
      \<and> lastTxIO s' = lastTxIO s
      \<and> length (diagExecAbort s') = length (diagExecAbort s)
      \<and> length (txIncarnations s') = length (txIncarnations s)"
  using assms by (simp add: validateOne_def Let_def AllWriteSet_def markEstimates_fold)

lemma validateAll_chain:
  fixes s :: "('t, 'sm, 'mv, 'k, 'v, 'e, 'a) exec_state"
  assumes "\<forall>x \<in> set txs. 0 \<le> x \<and> x < int (length (diagExecAbort s))
             \<and> x < int (length (allOutputs (lastTxIO s))) \<and> x < int (length (txIncarnations s))"
  shows "\<exists>ss. length ss = length txs + 1 \<and> ss ! 0 = s
      \<and> validateAll ops s txs = Inr (ss ! length txs)
      \<and> (\<forall>i < length txs.
           (if ValidateVersion ops (txs ! i) (lastTxIO (ss ! i)) (mvh (ss ! i)) (execTasks (ss ! i))
            then validateTasks (ss ! (i + 1)) = markComplete ops (validateTasks (ss ! i)) (txs ! i)
               \<and> execTasks (ss ! (i + 1)) = execTasks (ss ! i) \<and> mvh (ss ! (i + 1)) = mvh (ss ! i)
               \<and> txIncarnations (ss ! (i + 1)) = txIncarnations (ss ! i)
            else mvh (ss ! (i + 1)) =
                   fold (\<lambda>p m. MarkEstimate ops m p (txs ! i))
                     (map Path (allOutputs (lastTxIO (ss ! i)) ! nat (txs ! i))) (mvh (ss ! i))
               \<and> validateTasks (ss ! (i + 1)) =
                   clearInProgress ops
                     (pushPendingSet ops (validateTasks (ss ! i))
                        (getRevalidationRange ops (execTasks (ss ! i)) (txs ! i + 1))) (txs ! i)
               \<and> (if \<not> checkPending ops (execTasks (ss ! i)) (txs ! i)
                      \<and> blockCount ops (execTasks (ss ! i)) (txs ! i) = - 1
                   then execTasks (ss ! (i + 1)) =
                          clearComplete ops (pushPending ops (execTasks (ss ! i)) (txs ! i)) (txs ! i)
                      \<and> txIncarnations (ss ! (i + 1)) =
                          (txIncarnations (ss ! i))[nat (txs ! i) := txIncarnations (ss ! i) ! nat (txs ! i) + 1]
                   else execTasks (ss ! (i + 1)) = execTasks (ss ! i)
                      \<and> txIncarnations (ss ! (i + 1)) = txIncarnations (ss ! i)))
           \<and> lastTxIO (ss ! (i + 1)) = lastTxIO (ss ! i))"
  using assms
proof (induction txs arbitrary: s)
  case Nil
  show ?case by (rule exI[where x = "[s]"]) simp
next
  case (Cons tx txs)
  let ?Q = "\<lambda>ss txs i.
           (if ValidateVersion ops (txs ! i) (lastTxIO (ss ! i)) (mvh (ss ! i)) (execTasks (ss ! i))
            then validateTasks (ss ! (i + 1)) = markComplete ops (validateTasks (ss ! i)) (txs ! i)
               \<and> execTasks (ss ! (i + 1)) = execTasks (ss ! i) \<and> mvh (ss ! (i + 1)) = mvh (ss ! i)
               \<and> txIncarnations (ss ! (i + 1)) = txIncarnations (ss ! i)
            else mvh (ss ! (i + 1)) =
                   fold (\<lambda>p m. MarkEstimate ops m p (txs ! i))
                     (map Path (allOutputs (lastTxIO (ss ! i)) ! nat (txs ! i))) (mvh (ss ! i))
               \<and> validateTasks (ss ! (i + 1)) =
                   clearInProgress ops
                     (pushPendingSet ops (validateTasks (ss ! i))
                        (getRevalidationRange ops (execTasks (ss ! i)) (txs ! i + 1))) (txs ! i)
               \<and> (if \<not> checkPending ops (execTasks (ss ! i)) (txs ! i)
                      \<and> blockCount ops (execTasks (ss ! i)) (txs ! i) = - 1
                   then execTasks (ss ! (i + 1)) =
                          clearComplete ops (pushPending ops (execTasks (ss ! i)) (txs ! i)) (txs ! i)
                      \<and> txIncarnations (ss ! (i + 1)) =
                          (txIncarnations (ss ! i))[nat (txs ! i) := txIncarnations (ss ! i) ! nat (txs ! i) + 1]
                   else execTasks (ss ! (i + 1)) = execTasks (ss ! i)
                      \<and> txIncarnations (ss ! (i + 1)) = txIncarnations (ss ! i)))
           \<and> lastTxIO (ss ! (i + 1)) = lastTxIO (ss ! i)"
  have tx: "0 \<le> tx" "tx < int (length (diagExecAbort s))" "tx < int (length (allOutputs (lastTxIO s)))"
      "tx < int (length (txIncarnations s))"
    using Cons.prems by simp_all
  from validateOne_effect[OF tx, of ops]
  obtain s1 where v: "validateOne ops s tx = Inr s1"
    and eff: "?Q [s, s1] [tx] 0"
    and fr: "length (diagExecAbort s1) = length (diagExecAbort s)"
      "length (txIncarnations s1) = length (txIncarnations s)"
    by auto
  from eff have io: "lastTxIO s1 = lastTxIO s" by simp
  have r1: "\<forall>x \<in> set txs. 0 \<le> x \<and> x < int (length (diagExecAbort s1))
             \<and> x < int (length (allOutputs (lastTxIO s1))) \<and> x < int (length (txIncarnations s1))"
    using Cons.prems fr io by simp
  from Cons.IH[OF r1] obtain ss where
    l: "length ss = length txs + 1" and h: "ss ! 0 = s1"
    and va: "validateAll ops s1 txs = Inr (ss ! length txs)"
    and ch: "\<forall>i < length txs. ?Q ss txs i"
    by blast
  have A: "length (s # ss) = length (tx # txs) + 1" using l by simp
  have B: "(s # ss) ! 0 = s" by simp
  have C: "validateAll ops s (tx # txs) = Inr ((s # ss) ! length (tx # txs))"
    using v va by simp
  have D: "\<forall>i < length (tx # txs). ?Q (s # ss) (tx # txs) i"
  proof (intro allI impI)
    fix i assume i: "i < length (tx # txs)"
    show "?Q (s # ss) (tx # txs) i"
    proof (cases i)
      case 0
      from eff show ?thesis unfolding 0 add_0 One_nat_def nth_Cons_Suc nth_Cons_0 h .
    next
      case (Suc j)
      then have "j < length txs" using i by simp
      with ch have "?Q ss txs j" by blast
      then show ?thesis unfolding Suc add_Suc nth_Cons_Suc .
    qed
  qed
  show ?case
    by (rule exI[where x = "s # ss"]) (intro conjI A B C D)
qed


text \<open>
  Claim C6, for a status manager whose pending queue is as the specification says. The validation
  queue is drained of its leading indices within \<open>0 .. maxComplete\<close>, \<open>maxComplete\<close> being
  \<open>maxAllComplete\<close> of the execution manager, so every index drained is at most \<open>maxComplete\<close>.
  The indices drained (indices of the tables) are validated in order: \<open>ss\<close> lists the states the
  validation goes through, \<open>ss ! i\<close> being the state in which the index \<open>toValidate ! i\<close> is
  validated and \<open>ss ! (i + 1)\<close> the state after it; the last one is the state after the
  validation. For each index drained: when \<open>ValidateVersion\<close> succeeds, it is marked
  validation-complete; when it fails, \<open>MarkEstimate(path, tx)\<close> is applied for the paths of
  \<open>allOutputs[tx]\<close>, the revalidation range from \<open>tx + 1\<close> is pushed pending for validation, the
  validation in-progress flag of \<open>tx\<close> is cleared, and \<open>tx\<close> is pushed pending for execution,
  cleared from complete and its incarnation incremented exactly when it is not pending for
  execution and \<open>blockCount[tx] = -1\<close>.
\<close>

theorem validatePhase_drains_and_validates:
  fixes st :: "('t, 'sm, 'mv, 'k, 'v, 'e, 'a) exec_state"
    and ops :: "('sm, 'mv, 'k, 'v) blockstm_ops"
  assumes q: "pendingQueue ops pend"
  defines "maxComplete \<equiv> maxAllComplete ops (execTasks st)"
  defines "toValidate \<equiv> takeWhile (\<lambda>x. x \<le> maxComplete \<and> 0 \<le> x) (pend (validateTasks st))"
  assumes r: "\<forall>x \<in> set toValidate. x < int (length (diagExecAbort st))
                \<and> x < int (length (allOutputs (lastTxIO st))) \<and> x < int (length (txIncarnations st))"
  shows "\<exists>vt ss. drainValidate ops maxComplete (validateTasks st) [] = Some (toValidate, vt)
      \<and> pend vt = dropWhile (\<lambda>x. x \<le> maxComplete \<and> 0 \<le> x) (pend (validateTasks st))
      \<and> (\<forall>x \<in> set toValidate. 0 \<le> x \<and> x \<le> maxComplete)
      \<and> length ss = length toValidate + 1
      \<and> ss ! 0 = st\<lparr>validateTasks := vt\<rparr>
      \<and> validatePhase ops st = Some (Inr (ss ! length toValidate))
      \<and> (\<forall>i < length toValidate.
           (if ValidateVersion ops (toValidate ! i) (lastTxIO (ss ! i)) (mvh (ss ! i)) (execTasks (ss ! i))
            then validateTasks (ss ! (i + 1)) = markComplete ops (validateTasks (ss ! i)) (toValidate ! i)
               \<and> execTasks (ss ! (i + 1)) = execTasks (ss ! i) \<and> mvh (ss ! (i + 1)) = mvh (ss ! i)
               \<and> txIncarnations (ss ! (i + 1)) = txIncarnations (ss ! i)
            else mvh (ss ! (i + 1)) =
                   fold (\<lambda>p m. MarkEstimate ops m p (toValidate ! i))
                     (map Path (allOutputs (lastTxIO (ss ! i)) ! nat (toValidate ! i))) (mvh (ss ! i))
               \<and> validateTasks (ss ! (i + 1)) =
                   clearInProgress ops
                     (pushPendingSet ops (validateTasks (ss ! i))
                        (getRevalidationRange ops (execTasks (ss ! i)) (toValidate ! i + 1))) (toValidate ! i)
               \<and> (if \<not> checkPending ops (execTasks (ss ! i)) (toValidate ! i)
                      \<and> blockCount ops (execTasks (ss ! i)) (toValidate ! i) = - 1
                   then execTasks (ss ! (i + 1)) =
                          clearComplete ops (pushPending ops (execTasks (ss ! i)) (toValidate ! i)) (toValidate ! i)
                      \<and> txIncarnations (ss ! (i + 1)) =
                          (txIncarnations (ss ! i))[nat (toValidate ! i) := txIncarnations (ss ! i) ! nat (toValidate ! i) + 1]
                   else execTasks (ss ! (i + 1)) = execTasks (ss ! i)
                      \<and> txIncarnations (ss ! (i + 1)) = txIncarnations (ss ! i)))
           \<and> lastTxIO (ss ! (i + 1)) = lastTxIO (ss ! i))"
proof -
  from drainValidate_queue[OF q, of maxComplete "validateTasks st" "[]"]
  obtain vt where d: "drainValidate ops maxComplete (validateTasks st) [] = Some (toValidate, vt)"
    and p: "pend vt = dropWhile (\<lambda>x. x \<le> maxComplete \<and> 0 \<le> x) (pend (validateTasks st))"
    by (auto simp: toValidate_def)
  have b: "\<forall>x \<in> set toValidate. 0 \<le> x \<and> x \<le> maxComplete"
    by (auto simp: toValidate_def dest: set_takeWhileD)
  have v: "validatePhase ops st = Some (validateAll ops (st\<lparr>validateTasks := vt\<rparr>) toValidate)"
    using d by (simp add: validatePhase_def maxComplete_def)
  have r': "\<forall>x \<in> set toValidate. 0 \<le> x \<and> x < int (length (diagExecAbort (st\<lparr>validateTasks := vt\<rparr>)))
      \<and> x < int (length (allOutputs (lastTxIO (st\<lparr>validateTasks := vt\<rparr>))))
      \<and> x < int (length (txIncarnations (st\<lparr>validateTasks := vt\<rparr>)))"
    using r b by simp
  from validateAll_chain[OF r', of ops] obtain ss where
    l: "length ss = length toValidate + 1" and h: "ss ! 0 = st\<lparr>validateTasks := vt\<rparr>"
    and va: "validateAll ops (st\<lparr>validateTasks := vt\<rparr>) toValidate = Inr (ss ! length toValidate)"
    and ch: "\<forall>i < length toValidate.
           (if ValidateVersion ops (toValidate ! i) (lastTxIO (ss ! i)) (mvh (ss ! i)) (execTasks (ss ! i))
            then validateTasks (ss ! (i + 1)) = markComplete ops (validateTasks (ss ! i)) (toValidate ! i)
               \<and> execTasks (ss ! (i + 1)) = execTasks (ss ! i) \<and> mvh (ss ! (i + 1)) = mvh (ss ! i)
               \<and> txIncarnations (ss ! (i + 1)) = txIncarnations (ss ! i)
            else mvh (ss ! (i + 1)) =
                   fold (\<lambda>p m. MarkEstimate ops m p (toValidate ! i))
                     (map Path (allOutputs (lastTxIO (ss ! i)) ! nat (toValidate ! i))) (mvh (ss ! i))
               \<and> validateTasks (ss ! (i + 1)) =
                   clearInProgress ops
                     (pushPendingSet ops (validateTasks (ss ! i))
                        (getRevalidationRange ops (execTasks (ss ! i)) (toValidate ! i + 1))) (toValidate ! i)
               \<and> (if \<not> checkPending ops (execTasks (ss ! i)) (toValidate ! i)
                      \<and> blockCount ops (execTasks (ss ! i)) (toValidate ! i) = - 1
                   then execTasks (ss ! (i + 1)) =
                          clearComplete ops (pushPending ops (execTasks (ss ! i)) (toValidate ! i)) (toValidate ! i)
                      \<and> txIncarnations (ss ! (i + 1)) =
                          (txIncarnations (ss ! i))[nat (toValidate ! i) := txIncarnations (ss ! i) ! nat (toValidate ! i) + 1]
                   else execTasks (ss ! (i + 1)) = execTasks (ss ! i)
                      \<and> txIncarnations (ss ! (i + 1)) = txIncarnations (ss ! i)))
           \<and> lastTxIO (ss ! (i + 1)) = lastTxIO (ss ! i)"
    by blast
  have v': "validatePhase ops st = Some (Inr (ss ! length toValidate))"
    using v va by simp
  show ?thesis
    by (rule exI[where x = vt], rule exI[where x = ss]) (intro conjI d p b l h v' ch)
qed

lemma invalidated_drained:
  "takeWhile (\<lambda>x. x \<le> maxAllComplete spec_ops (execTasks invalidated) \<and> 0 \<le> x)
     (pending (validateTasks invalidated)) = [0, 1]"
  "dropWhile (\<lambda>x. x \<le> maxAllComplete spec_ops (execTasks invalidated) \<and> 0 \<le> x)
     (pending (validateTasks invalidated)) = []"
  by (simp_all add: invalidated_def stateWith_def spec_ops_def sm_maxAllComplete_def)

lemma invalidated_in_range:
  "\<forall>x \<in> set (takeWhile (\<lambda>x. x \<le> maxAllComplete spec_ops (execTasks invalidated) \<and> 0 \<le> x)
                 (pending (validateTasks invalidated))).
     x < int (length (diagExecAbort invalidated))
       \<and> x < int (length (allOutputs (lastTxIO invalidated)))
       \<and> x < int (length (txIncarnations invalidated))"
  unfolding invalidated_drained by (simp add: invalidated_def stateWith_def)

lemma invalidated_invalid:
  "\<not> ValidateVersion spec_ops 1 (lastTxIO invalidated) (mvh invalidated) (execTasks invalidated)"
  by (simp add: invalidated_def stateWith_def spec_ops_def sm_ValidateVersion_def validRead_def
      mv_Read_def ReadKindMap_def)

theorem validatePhase_drains_and_validates_witness:
  "\<exists>s'. validatePhase spec_ops invalidated = Some (Inr s')
     \<and> mvh s' = [((1, 0), Written 1 5), ((3, 0), Written 1 7), ((4, 1), Estimate 0)]
     \<and> validateTasks s' = \<lparr>pending = [], inProgress = [], complete = [0], dependency = []\<rparr>
     \<and> execTasks s' = \<lparr>pending = [1], inProgress = [], complete = [0], dependency = []\<rparr>
     \<and> txIncarnations s' = [1, 1]"
proof -
  note t = validatePhase_drains_and_validates
    [where ops = spec_ops and pend = pending and st = invalidated,
     OF pendingQueue_spec_ops invalidated_in_range, unfolded invalidated_drained]
  from t obtain vt ss where
    d: "drainValidate spec_ops (maxAllComplete spec_ops (execTasks invalidated))
          (validateTasks invalidated) [] = Some ([0, 1], vt)"
    and h: "ss ! 0 = invalidated\<lparr>validateTasks := vt\<rparr>"
    and v: "validatePhase spec_ops invalidated = Some (Inr (ss ! length [0::int, 1]))"
    and ch: "\<forall>i < length [0::int, 1].
           (if ValidateVersion spec_ops ([0, 1] ! i) (lastTxIO (ss ! i)) (mvh (ss ! i)) (execTasks (ss ! i))
            then validateTasks (ss ! (i + 1)) = markComplete spec_ops (validateTasks (ss ! i)) ([0, 1] ! i)
               \<and> execTasks (ss ! (i + 1)) = execTasks (ss ! i) \<and> mvh (ss ! (i + 1)) = mvh (ss ! i)
               \<and> txIncarnations (ss ! (i + 1)) = txIncarnations (ss ! i)
            else mvh (ss ! (i + 1)) =
                   fold (\<lambda>p m. MarkEstimate spec_ops m p ([0, 1] ! i))
                     (map Path (allOutputs (lastTxIO (ss ! i)) ! nat ([0, 1] ! i))) (mvh (ss ! i))
               \<and> validateTasks (ss ! (i + 1)) =
                   clearInProgress spec_ops
                     (pushPendingSet spec_ops (validateTasks (ss ! i))
                        (getRevalidationRange spec_ops (execTasks (ss ! i)) ([0, 1] ! i + 1))) ([0, 1] ! i)
               \<and> (if \<not> checkPending spec_ops (execTasks (ss ! i)) ([0, 1] ! i)
                      \<and> blockCount spec_ops (execTasks (ss ! i)) ([0, 1] ! i) = - 1
                   then execTasks (ss ! (i + 1)) =
                          clearComplete spec_ops (pushPending spec_ops (execTasks (ss ! i)) ([0, 1] ! i)) ([0, 1] ! i)
                      \<and> txIncarnations (ss ! (i + 1)) =
                          (txIncarnations (ss ! i))[nat ([0, 1] ! i) := txIncarnations (ss ! i) ! nat ([0, 1] ! i) + 1]
                   else execTasks (ss ! (i + 1)) = execTasks (ss ! i)
                      \<and> txIncarnations (ss ! (i + 1)) = txIncarnations (ss ! i)))
           \<and> lastTxIO (ss ! (i + 1)) = lastTxIO (ss ! i)"
    by (elim exE conjE) (rule that)
  have vt: "vt = \<lparr>pending = [], inProgress = [0, 1], complete = [], dependency = []\<rparr>"
    using d
    by (simp add: drainValidate.simps invalidated_def stateWith_def spec_ops_def sm_maxAllComplete_def
        sm_minPending_def sm_takeNextPending_def insertInList_def)
  have l0: "(0::nat) < length [0::int, 1]" and l1: "(1::nat) < length [0::int, 1]"
    by simp_all
  note c0 = ch[rule_format, OF l0]
  note c1 = ch[rule_format, OF l1]
  have v0: "ValidateVersion spec_ops ([0, 1] ! 0) (lastTxIO (ss ! 0)) (mvh (ss ! 0)) (execTasks (ss ! 0))"
    unfolding h vt
    by (simp add: invalidated_def stateWith_def spec_ops_def sm_ValidateVersion_def)
  from c0 v0 have s1: "validateTasks (ss ! 1) = \<lparr>pending = [], inProgress = [1], complete = [0], dependency = []\<rparr>"
    "execTasks (ss ! 1) = execTasks invalidated" "mvh (ss ! 1) = mvh invalidated"
    "txIncarnations (ss ! 1) = txIncarnations invalidated" "lastTxIO (ss ! 1) = lastTxIO invalidated"
    by (simp_all add: h vt spec_ops_def sm_markComplete_def insertInList_def)
  have v1: "\<not> ValidateVersion spec_ops ([0, 1] ! 1) (lastTxIO (ss ! 1)) (mvh (ss ! 1)) (execTasks (ss ! 1))"
    unfolding s1 using invalidated_invalid by simp
  from c1[unfolded one_add_one s1] v1[unfolded s1] have s2: "mvh (ss ! 2) = [((1, 0), Written 1 5), ((3, 0), Written 1 7), ((4, 1), Estimate 0)]"
    "validateTasks (ss ! 2) = \<lparr>pending = [], inProgress = [], complete = [0], dependency = []\<rparr>"
    "execTasks (ss ! 2) = \<lparr>pending = [1], inProgress = [], complete = [0], dependency = []\<rparr>"
    "txIncarnations (ss ! 2) = [1, 1]"
    by (simp_all add: s1 invalidated_def stateWith_def spec_ops_def mv_MarkEstimate_def wr_def
        sm_clearInProgress_def sm_pushPendingSet_def sm_getRevalidationRange_def sm_pushPending_def
        insertInList_def sm_checkPending_def sm_blockCount_def sm_clearComplete_def)
  have "length [0::int, 1] = 2" by simp
  note v2 = v[unfolded this]
  show ?thesis
    by (rule exI[where x = "ss ! 2"]) (intro conjI v2 s2)
qed

subsection \<open>The goroutines\<close>

lemmas worker_defs = procStep_def workStep_def workerExecute_def ExecVersionView_Execute_def
  workerSend_def workerFlush_def numSpeculativeProcs_def numGoProcs_def
  taskChClosed_def resultChClosed_def closedChannels_def

lemma fun_upd_const [simp]: "(\<lambda>p. c)(x := c) = (\<lambda>p. c)"
  by (rule ext) simp

lemma inLoop_simps [simp]:
  "vars (inLoop st) = st" "workers (inLoop st) = (\<lambda>p. Waiting)" "coord (inLoop st) = InLoop"
  "(inLoop st)\<lparr>vars := s\<rparr> = inLoop s"
  by (simp_all add: inLoop_def)

lemma bootstrap_idle:
  "pending (execTasks st) = [] \<Longrightarrow> bootstrap T spec_ops n st = Inr st"
  by (induction n arbitrary: st) (simp_all add: spec_ops_def sm_takeNextPending_def)

lemma initialise_one: "initialise fixed_ops spec_ops [t] = Inr (dispatched t)"
  apply (simp add: initialise_def numSpeculativeProcs_def eval_nat_numeral)
  apply (simp add: spec_ops_def sm_makeStatusManager_def sm_takeNextPending_def insertInList_def
      bootstrap_idle[unfolded spec_ops_def] started_def dispatched_def stateWith_def
      numSpeculativeProcs_def MakeTxnInputOutput_def fixed_ops_def)
  done

text \<open>
  A worker that waits, with the coordinator in the loop, and takes its four steps with no other
  goroutine in between does what \<open>doWork\<close> says.
\<close>

lemma doWork_steps:
  fixes cfg :: "('t, 'sm, 'mv, 'k, 'v, 'e, 'a) configuration"
  assumes "workers cfg procNum = Waiting" and "coord cfg = InLoop"
  shows "andThen (workStep T ops speculative procNum cfg) (\<lambda>c1.
         andThen (workStep T ops speculative procNum c1) (\<lambda>c2.
         andThen (workStep T ops speculative procNum c2) (\<lambda>c3.
         workStep T ops speculative procNum c3)))
       = andThen (doWork T ops speculative (vars cfg)) (\<lambda>st. Inr (cfg\<lparr>vars := st\<rparr>))"
proof (cases "if speculative then chSpeculativeTasks (vars cfg) else chTasks (vars cfg)")
  case Nil
  then show ?thesis
    using assms by (simp add: workStep_def doWork_def taskChClosed_def closedChannels_def)
next
  case (Cons task rest)
  define st0 where "st0 = (if speculative then (vars cfg)\<lparr>chSpeculativeTasks := rest\<rparr> else (vars cfg)\<lparr>chTasks := rest\<rparr>)"
  have s1: "workStep T ops speculative procNum cfg
      = Inr (cfg\<lparr>vars := st0, workers := (workers cfg)(procNum := Received task)\<rparr>)"
    using assms Cons by (simp add: workStep_def st0_def)
  have d: "doWork T ops speculative (vars cfg) =
      andThen (workerExecute T task st0) (\<lambda>(res, st1). Inr (workerSend speculative res (workerFlush ops res st1)))"
    using Cons by (simp add: doWork_def st0_def)
  show ?thesis
  proof (cases "workerExecute T task st0")
    case (Inl p)
    then show ?thesis
      unfolding d s1 by (simp add: workStep_def)
  next
    case (Inr a)
    obtain res st1 where a: "a = (res, st1)" by (cases a)
    have i: "(workers cfg)(procNum := Waiting) = workers cfg"
      using assms(1) by (simp add: fun_upd_idem)
    have s2: "workStep T ops speculative procNum (cfg\<lparr>vars := st0, workers := (workers cfg)(procNum := Received task)\<rparr>)
        = Inr (cfg\<lparr>vars := st1, workers := (workers cfg)(procNum := Executed res)\<rparr>)"
      using Inr unfolding a by (simp add: workStep_def)
    have s3: "workStep T ops speculative procNum (cfg\<lparr>vars := st1, workers := (workers cfg)(procNum := Executed res)\<rparr>)
        = Inr (cfg\<lparr>vars := workerFlush ops res st1, workers := (workers cfg)(procNum := Flushed res)\<rparr>)"
      by (simp add: workStep_def)
    have s4: "workStep T ops speculative procNum
          (cfg\<lparr>vars := workerFlush ops res st1, workers := (workers cfg)(procNum := Flushed res)\<rparr>)
        = Inr (cfg\<lparr>vars := workerSend speculative res (workerFlush ops res st1)\<rparr>)"
      using assms(2)
      by (simp add: workStep_def resultChClosed_def closedChannels_def i)
    show ?thesis
      unfolding d s1 Inr a
      by (simp only: andThen_Inr s2 s3 s4 prod.case)
  qed
qed

subsection \<open>A run of twenty-two independent tasks\<close>

lemma replicate_update_same [simp]: "(replicate n x)[i := x] = replicate n x"
  by (induction n arbitrary: i) (auto split: nat.splits)

lemma length_independent22 [simp]: "length independent22 = 22"
  by (simp add: independent22_def)

lemma run22_initialise: "initialise fixed_ops spec_ops independent22 = Inr launched"
  apply (simp add: initialise_def numSpeculativeProcs_def eval_nat_numeral)
  apply (simp add: independent22_def idle_def fixed_ops_def upt_rec eval_nat_numeral
      spec_ops_def sm_makeStatusManager_def numSpeculativeProcs_def numGoProcs_def
      sm_takeNextPending_def insertInList_def MakeTxnInputOutput_def launched_def stateWith_def
      firstJob_def)
  done

lemma run22_receive:
  "procStep fixed_ops spec_ops 0 (inLoop launched) =
     Inr \<lparr>vars = launched\<lparr>chSpeculativeTasks := map firstJob [1, 2, 3, 4, 5, 6, 7, 8, 9, 10, 11, 12, 13, 14, 15]\<rparr>, workers = (\<lambda>p. Waiting)(0 := Received (firstJob 0)), coord = InLoop\<rparr>"
  by (simp add: worker_defs inLoop_def launched_def stateWith_def)

lemma run22_execute:
  "procStep fixed_ops spec_ops 0
     \<lparr>vars = launched\<lparr>chSpeculativeTasks := map firstJob [1, 2, 3, 4, 5, 6, 7, 8, 9, 10, 11, 12, 13, 14, 15]\<rparr>, workers = (\<lambda>p. Waiting)(0 := Received (firstJob 0)), coord = InLoop\<rparr> =
     Inr \<lparr>vars = launched\<lparr>chSpeculativeTasks := map firstJob [1, 2, 3, 4, 5, 6, 7, 8, 9, 10, 11, 12, 13, 14, 15]\<rparr>, workers = (\<lambda>p. Waiting)(0 := Executed (okResult 0 0)), coord = InLoop\<rparr>"
  by (simp add: worker_defs launched_def stateWith_def independent22_def
      idle_def fixed_ops_def firstJob_def okResult_def)

lemma run22_flush:
  "procStep fixed_ops spec_ops 0
     \<lparr>vars = launched\<lparr>chSpeculativeTasks := map firstJob [1, 2, 3, 4, 5, 6, 7, 8, 9, 10, 11, 12, 13, 14, 15]\<rparr>, workers = (\<lambda>p. Waiting)(0 := Executed (okResult 0 0)), coord = InLoop\<rparr> =
     Inr \<lparr>vars = launched\<lparr>chSpeculativeTasks := map firstJob [1, 2, 3, 4, 5, 6, 7, 8, 9, 10, 11, 12, 13, 14, 15]\<rparr>, workers = (\<lambda>p. Waiting)(0 := Flushed (okResult 0 0)), coord = InLoop\<rparr>"
  by (simp add: worker_defs launched_def stateWith_def okResult_def spec_ops_def mv_FlushMVWriteSet_def)

lemma run22_send:
  "procStep fixed_ops spec_ops 0
     \<lparr>vars = launched\<lparr>chSpeculativeTasks := map firstJob [1, 2, 3, 4, 5, 6, 7, 8, 9, 10, 11, 12, 13, 14, 15]\<rparr>, workers = (\<lambda>p. Waiting)(0 := Flushed (okResult 0 0)), coord = InLoop\<rparr> =
     Inr (inLoop (launched\<lparr>chSpeculativeTasks := map firstJob [1, 2, 3, 4, 5, 6, 7, 8, 9, 10, 11, 12, 13, 14, 15], chSpeculativeResults := [okResult 0 0]\<rparr>))"
  by (simp add: worker_defs inLoop_def launched_def stateWith_def)

lemma run22_poll:
  "pollResults (launched\<lparr>chSpeculativeTasks := map firstJob [1, 2, 3, 4, 5, 6, 7, 8, 9, 10, 11, 12, 13, 14, 15], chSpeculativeResults := [okResult 0 0]\<rparr>)
     = Some (okResult 0 0, launched\<lparr>chSpeculativeTasks := map firstJob [1, 2, 3, 4, 5, 6, 7, 8, 9, 10, 11, 12, 13, 14, 15]\<rparr>)"
  by (simp add: pollResults_def launched_def stateWith_def)

lemma run22_result:
  "handleResult spec_ops (launched\<lparr>chSpeculativeTasks := map firstJob [1, 2, 3, 4, 5, 6, 7, 8, 9, 10, 11, 12, 13, 14, 15]\<rparr>) (okResult 0 0)
     = Inr (Continue (launched
       \<lparr>chSpeculativeTasks := map firstJob [1, 2, 3, 4, 5, 6, 7, 8, 9, 10, 11, 12, 13, 14, 15],
        cntSuccess := 1,
        execTasks := \<lparr>pending = [16, 17, 18, 19, 20, 21], inProgress = [1, 2, 3, 4, 5, 6, 7, 8, 9, 10, 11, 12, 13, 14, 15], complete = [0], dependency = []\<rparr>,
        validateTasks := \<lparr>pending = [0], inProgress = [], complete = [], dependency = []\<rparr>,
        diagExecSuccess := (replicate 22 0)[0 := 1]\<rparr>))"
  by (simp add: handleResult_def handleSuccess_def okResult_def launched_def stateWith_def
      recordRead_def recordWrite_def recordAllWrite_def MakeTxnInputOutput_def Let_def
      spec_ops_def sm_pushPending_def sm_markComplete_def sm_removeDependency_def
      sm_pushPendingSet_def insertInList_def)


lemma run22_validate:
  "validatePhase spec_ops (launched
       \<lparr>chSpeculativeTasks := map firstJob [1, 2, 3, 4, 5, 6, 7, 8, 9, 10, 11, 12, 13, 14, 15],
        cntSuccess := 1,
        execTasks := \<lparr>pending = [16, 17, 18, 19, 20, 21], inProgress = [1, 2, 3, 4, 5, 6, 7, 8, 9, 10, 11, 12, 13, 14, 15], complete = [0], dependency = []\<rparr>,
        validateTasks := \<lparr>pending = [0], inProgress = [], complete = [], dependency = []\<rparr>,
        diagExecSuccess := (replicate 22 0)[0 := 1]\<rparr>)
   = Some (Inr (launched
       \<lparr>chSpeculativeTasks := map firstJob [1, 2, 3, 4, 5, 6, 7, 8, 9, 10, 11, 12, 13, 14, 15],
        cntSuccess := 1, cntTotalValidations := 1,
        execTasks := \<lparr>pending = [16, 17, 18, 19, 20, 21], inProgress = [1, 2, 3, 4, 5, 6, 7, 8, 9, 10, 11, 12, 13, 14, 15], complete = [0], dependency = []\<rparr>,
        validateTasks := \<lparr>pending = [], inProgress = [], complete = [0], dependency = []\<rparr>,
        diagExecSuccess := (replicate 22 0)[0 := 1]\<rparr>))"
  by (simp add: validatePhase_def drainValidate.simps validateOne_def launched_def stateWith_def
      MakeTxnInputOutput_def Let_def
      spec_ops_def sm_maxAllComplete_def sm_minPending_def sm_takeNextPending_def
      sm_markComplete_def sm_ValidateVersion_def insertInList_def)

lemma run22_dispatch:
  "dispatchPhase fixed_ops spec_ops (launched
       \<lparr>chSpeculativeTasks := map firstJob [1, 2, 3, 4, 5, 6, 7, 8, 9, 10, 11, 12, 13, 14, 15],
        cntSuccess := 1, cntTotalValidations := 1,
        execTasks := \<lparr>pending = [16, 17, 18, 19, 20, 21], inProgress = [1, 2, 3, 4, 5, 6, 7, 8, 9, 10, 11, 12, 13, 14, 15], complete = [0], dependency = []\<rparr>,
        validateTasks := \<lparr>pending = [], inProgress = [], complete = [0], dependency = []\<rparr>,
        diagExecSuccess := (replicate 22 0)[0 := 1]\<rparr>)
   = Some (Inr firstValidated)"
  by (simp add: dispatchPhase_def dispatchTask_def dispatchSpeculative.simps mkJob_def
      launched_def stateWith_def firstValidated_def firstJob_def independent22_def idle_def
      fixed_ops_def Let_def
      spec_ops_def sm_maxAllComplete_def sm_minPending_def sm_takeNextPending_def insertInList_def)

lemma run22_coord:
  "coordStep fixed_ops spec_ops (inLoop (launched\<lparr>chSpeculativeTasks := map firstJob [1, 2, 3, 4, 5, 6, 7, 8, 9, 10, 11, 12, 13, 14, 15], chSpeculativeResults := [okResult 0 0]\<rparr>)) = Some (Inr (inLoop firstValidated), [okResult 0 0])"
proof -
  have c: "countComplete spec_ops (validateTasks firstValidated) \<noteq> int (length (tasks firstValidated))"
    by (simp add: firstValidated_def launched_def stateWith_def spec_ops_def sm_countComplete_def)
  have b: "coordBody fixed_ops spec_ops (launched\<lparr>chSpeculativeTasks := map firstJob [1, 2, 3, 4, 5, 6, 7, 8, 9, 10, 11, 12, 13, 14, 15]\<rparr>) (okResult 0 0)
      = Some (Inr (Continue firstValidated))"
    using c by (simp only: coordBody_def afterResult_def run22_result run22_validate run22_dispatch
        sum.case option.case loop_step.case simp_thms if_False Let_def)
  show ?thesis
    by (simp only: coordStep_def inLoop_simps coordinator.case run22_poll b option.case prod.case sum.case
        loop_step.case)
qed

lemma run22_iteration:
  "ExecuteParallel fixed_ops spec_ops independent22 [RunProc 0, RunProc 0, RunProc 0, RunProc 0, RunCoordinator]
     = Some (Running (inLoop firstValidated), [okResult 0 0])"
proof -
  have o: "outcome (inLoop firstValidated) = Running (inLoop firstValidated)"
    by (simp add: outcome_def inLoop_def)
  show ?thesis
    by (simp only: ExecuteParallel_def run22_initialise run22_receive run22_execute run22_flush
        run22_send run22_coord o length_independent22 run.simps sum.case option.case prod.case
        append_Nil simp_thms if_False) simp
qed

text \<open>
  Claim C7, as stated, ends: no index dispatched speculatively exceeds the validated frontier by
  more than the policy (the look-ahead of 20) allows. In the run of twenty-two independent tasks
  where worker 0 executes task 0 (it receives the job, executes it, flushes and sends the result)
  and the coordinator then handles its result, the iteration validates task 0
  (\<open>maxAllComplete(validateTasks) = 0\<close>), sends task 16 to \<open>chTasks\<close> and sends the tasks 17 to 21
  to \<open>chSpeculativeTasks\<close>: index 21 is dispatched speculatively although \<open>21 > 0 + 20\<close>.
\<close>

theorem ExecuteParallel_speculative_not_capped_counterexample:
  "ExecuteParallel fixed_ops spec_ops independent22 [RunProc 0, RunProc 0, RunProc 0, RunProc 0, RunCoordinator]
     = Some (Running (inLoop firstValidated), [okResult 0 0])
   \<and> maxAllComplete spec_ops (validateTasks firstValidated) = 0
   \<and> map (\<lambda>j. TxnIndex (ev_ver j)) (chTasks firstValidated) = [16]
   \<and> map (\<lambda>j. TxnIndex (ev_ver j)) (chSpeculativeTasks firstValidated)
       = [1, 2, 3, 4, 5, 6, 7, 8, 9, 10, 11, 12, 13, 14, 15, 17, 18, 19, 20, 21]
   \<and> \<not> 21 \<le> maxAllComplete spec_ops (validateTasks firstValidated) + 20"
proof -
  have m: "maxAllComplete spec_ops (validateTasks firstValidated) = 0"
    by (simp add: firstValidated_def launched_def stateWith_def spec_ops_def sm_maxAllComplete_def)
  have t: "map (\<lambda>j. TxnIndex (ev_ver j)) (chTasks firstValidated) = [16]"
    by (simp add: firstValidated_def firstJob_def)
  have s: "map (\<lambda>j. TxnIndex (ev_ver j)) (chSpeculativeTasks firstValidated)
       = [1, 2, 3, 4, 5, 6, 7, 8, 9, 10, 11, 12, 13, 14, 15, 17, 18, 19, 20, 21]"
    by (simp add: firstValidated_def firstJob_def)
  show ?thesis
    using run22_iteration m t s by simp
qed

subsection \<open>Errors\<close>





















text \<open>
  After an error that is not an \<open>ErrExecAbortError\<close> the coordinator closes the four channels
  while a worker may still hold a result: in the batch of a failing task and a task that
  succeeds, worker 0 reports the failure of task 0, worker 1 is about to send the result of task
  1, the coordinator leaves the loop and closes the channels, and the send of worker 1 panics
  before \<open>ExecuteParallel\<close> has returned.
\<close>

lemma ExecuteParallel_send_on_closed_channel:
  "ExecuteParallel fixed_ops spec_ops failingFirst
     [RunProc 0, RunProc 0, RunProc 0, RunProc 0, RunProc 1, RunProc 1, RunProc 1,
      RunCoordinator, RunCoordinator, RunCoordinator, RunCoordinator, RunCoordinator, RunProc 1]
   = Some (Panicked SendOnClosedChannel, [failedResult 0 0 (OtherError ''boom'')])"
proof -
  have i: "initialise fixed_ops spec_ops failingFirst =
      Inr ((stateWith failingFirst
              \<lparr>pending = [], inProgress = [0, 1], complete = [], dependency = []\<rparr>
              \<lparr>pending = [], inProgress = [], complete = [], dependency = []\<rparr>
              [] (MakeTxnInputOutput 2) [0, 0] (\<lambda>i. []))
           \<lparr>cntExec := 2,
            chSpeculativeTasks :=
              [\<lparr>ev_ver = \<lparr>TxnIndex = 0, Incarnation = 0\<rparr>, ev_et = 0, ev_sender = 0\<rparr>,
               \<lparr>ev_ver = \<lparr>TxnIndex = 1, Incarnation = 0\<rparr>, ev_et = 1, ev_sender = 1\<rparr>]\<rparr>)"
    apply (simp add: initialise_def numSpeculativeProcs_def eval_nat_numeral)
    apply (simp add: failingFirst_def failing_def idle_def fixed_ops_def
        spec_ops_def sm_makeStatusManager_def numSpeculativeProcs_def numGoProcs_def
        sm_takeNextPending_def insertInList_def MakeTxnInputOutput_def stateWith_def
        bootstrap_idle[unfolded spec_ops_def] upt_rec)
    done
  have l: "length failingFirst = 2"
    by (simp add: failingFirst_def)
  show ?thesis
    apply (simp add: ExecuteParallel_def i l)
    apply (simp add: worker_defs inLoop_def stateWith_def failingFirst_def fixed_ops_def failing_def idle_def
        pollResults_def coordStep_def coordBody_def handleResult_def failedResult_def
        spec_ops_def mv_FlushMVWriteSet_def)
    done
qed

subsection \<open>Termination\<close>

lemma abortingRun_intros:
  "abortingRun (inLoop (dispatched aborting))" "abortingRun (inLoop abortReported)"
  "abortingRun (inLoop blocked)"
  "0 \<le> p \<Longrightarrow> p < numSpeculativeProcs \<Longrightarrow>
     abortingRun \<lparr>vars = started aborting, workers = (\<lambda>q. Waiting)(p := Received \<lparr>ev_ver = \<lparr>TxnIndex = 0, Incarnation = 0\<rparr>, ev_et = 0, ev_sender = 0\<rparr>), coord = InLoop\<rparr>"
  "0 \<le> p \<Longrightarrow> p < numSpeculativeProcs \<Longrightarrow>
     abortingRun \<lparr>vars = started aborting, workers = (\<lambda>q. Waiting)(p := Executed (failedResult 0 0 (ErrExecAbortError (- 1)))), coord = InLoop\<rparr>"
  "0 \<le> p \<Longrightarrow> p < numSpeculativeProcs \<Longrightarrow>
     abortingRun \<lparr>vars = started aborting, workers = (\<lambda>q. Waiting)(p := Flushed (failedResult 0 0 (ErrExecAbortError (- 1)))), coord = InLoop\<rparr>"
proof -
  show "abortingRun (inLoop (dispatched aborting))" "abortingRun (inLoop abortReported)"
    "abortingRun (inLoop blocked)"
    by (simp_all add: abortingRun_def)
  show "0 \<le> p \<Longrightarrow> p < numSpeculativeProcs \<Longrightarrow>
     abortingRun \<lparr>vars = started aborting, workers = (\<lambda>q. Waiting)(p := Received \<lparr>ev_ver = \<lparr>TxnIndex = 0, Incarnation = 0\<rparr>, ev_et = 0, ev_sender = 0\<rparr>), coord = InLoop\<rparr>"
    unfolding abortingRun_def
    by (intro disjI2, rule exI[of _ p], rule exI[of _ "Received \<lparr>ev_ver = \<lparr>TxnIndex = 0, Incarnation = 0\<rparr>, ev_et = 0, ev_sender = 0\<rparr>"]) simp
  show "0 \<le> p \<Longrightarrow> p < numSpeculativeProcs \<Longrightarrow>
     abortingRun \<lparr>vars = started aborting, workers = (\<lambda>q. Waiting)(p := Executed (failedResult 0 0 (ErrExecAbortError (- 1)))), coord = InLoop\<rparr>"
    unfolding abortingRun_def
    by (intro disjI2, rule exI[of _ p], rule exI[of _ "Executed (failedResult 0 0 (ErrExecAbortError (- 1)))"]) simp
  show "0 \<le> p \<Longrightarrow> p < numSpeculativeProcs \<Longrightarrow>
     abortingRun \<lparr>vars = started aborting, workers = (\<lambda>q. Waiting)(p := Flushed (failedResult 0 0 (ErrExecAbortError (- 1)))), coord = InLoop\<rparr>"
    unfolding abortingRun_def
    by (intro disjI2, rule exI[of _ p], rule exI[of _ "Flushed (failedResult 0 0 (ErrExecAbortError (- 1)))"]) simp
qed

lemma abortingRun_procStep:
  assumes "abortingRun cfg"
  shows "\<exists>cfg'. procStep fixed_ops spec_ops q cfg = Inr cfg' \<and> abortingRun cfg'"
proof -
  from assms consider
    (A) "cfg = inLoop (dispatched aborting)" | (E) "cfg = inLoop abortReported" | (F) "cfg = inLoop blocked"
    | (R) p where "0 \<le> p" "p < numSpeculativeProcs"
        "cfg = \<lparr>vars = started aborting,
                workers = (\<lambda>q. Waiting)(p := Received \<lparr>ev_ver = \<lparr>TxnIndex = 0, Incarnation = 0\<rparr>, ev_et = 0, ev_sender = 0\<rparr>),
                coord = InLoop\<rparr>"
    | (X) p where "0 \<le> p" "p < numSpeculativeProcs"
        "cfg = \<lparr>vars = started aborting,
                workers = (\<lambda>q. Waiting)(p := Executed (failedResult 0 0 (ErrExecAbortError (- 1)))),
                coord = InLoop\<rparr>"
    | (S) p where "0 \<le> p" "p < numSpeculativeProcs"
        "cfg = \<lparr>vars = started aborting,
                workers = (\<lambda>q. Waiting)(p := Flushed (failedResult 0 0 (ErrExecAbortError (- 1)))),
                coord = InLoop\<rparr>"
    unfolding abortingRun_def by blast
  then show ?thesis
  proof cases
    case A
    have "procStep fixed_ops spec_ops q cfg = Inr cfg
        \<or> (0 \<le> q \<and> q < numSpeculativeProcs \<and> procStep fixed_ops spec_ops q cfg =
            Inr \<lparr>vars = started aborting,
                 workers = (\<lambda>q. Waiting)(q := Received \<lparr>ev_ver = \<lparr>TxnIndex = 0, Incarnation = 0\<rparr>, ev_et = 0, ev_sender = 0\<rparr>),
                 coord = InLoop\<rparr>)"
      unfolding A
      by (simp add: worker_defs inLoop_def dispatched_def started_def stateWith_def aborting_def)
    then show ?thesis
      using assms abortingRun_intros(4)[of q] by auto
  next
    case E
    have "procStep fixed_ops spec_ops q cfg = Inr cfg"
      unfolding E by (simp add: worker_defs inLoop_def abortReported_def started_def stateWith_def)
    with assms show ?thesis by simp
  next
    case F
    have "procStep fixed_ops spec_ops q cfg = Inr cfg"
      unfolding F by (simp add: worker_defs inLoop_def blocked_def started_def stateWith_def)
    with assms show ?thesis by simp
  next
    case R
    have "procStep fixed_ops spec_ops q cfg = Inr cfg
        \<or> procStep fixed_ops spec_ops q cfg =
            Inr \<lparr>vars = started aborting,
                 workers = (\<lambda>q. Waiting)(p := Executed (failedResult 0 0 (ErrExecAbortError (- 1)))),
                 coord = InLoop\<rparr>"
      unfolding R(3) using R(1,2)
      by (cases "q = p")
         (simp_all add: worker_defs started_def stateWith_def aborting_def fixed_ops_def failedResult_def)
    then show ?thesis
      using assms abortingRun_intros(5)[OF R(1,2)] by auto
  next
    case X
    have "procStep fixed_ops spec_ops q cfg = Inr cfg
        \<or> procStep fixed_ops spec_ops q cfg =
            Inr \<lparr>vars = started aborting,
                 workers = (\<lambda>q. Waiting)(p := Flushed (failedResult 0 0 (ErrExecAbortError (- 1)))),
                 coord = InLoop\<rparr>"
      unfolding X(3) using X(1,2)
      by (cases "q = p")
         (simp_all add: worker_defs started_def stateWith_def failedResult_def)
    then show ?thesis
      using assms abortingRun_intros(6)[OF X(1,2)] by auto
  next
    case S
    have "procStep fixed_ops spec_ops q cfg = Inr cfg
        \<or> procStep fixed_ops spec_ops q cfg = Inr (inLoop abortReported)"
      unfolding S(3) using S(1,2)
      by (cases "q = p")
         (simp_all add: worker_defs inLoop_def abortReported_def started_def stateWith_def)
    then show ?thesis
      using assms abortingRun_intros(2) by auto
  qed
qed


lemma abortingRun_coord: "abortingRun cfg \<Longrightarrow> coord cfg = InLoop"
  by (auto simp: abortingRun_def)

lemma abortingRun_vars:
  "abortingRun cfg \<Longrightarrow>
     vars cfg = dispatched aborting \<or> vars cfg = abortReported \<or> vars cfg = blocked
     \<or> vars cfg = started aborting"
  by (auto simp: abortingRun_def)

lemma poll_dispatched: "pollResults (dispatched aborting) = None"
  by (simp add: pollResults_def dispatched_def started_def stateWith_def)

lemma poll_started: "pollResults (started aborting) = None"
  by (simp add: pollResults_def started_def stateWith_def)

lemma poll_blocked: "pollResults blocked = None"
  by (simp add: pollResults_def blocked_def started_def stateWith_def)

lemma poll_abortReported:
  "pollResults abortReported = Some (failedResult 0 0 (ErrExecAbortError (- 1)), started aborting)"
  by (simp add: pollResults_def abortReported_def started_def stateWith_def)

lemma coordBody_abort:
  "coordBody fixed_ops spec_ops (started aborting) (failedResult 0 0 (ErrExecAbortError (- 1)))
     = Some (Inr (Continue blocked))"
  by (simp add: coordBody_def afterResult_def handleResult_def handleAbort_def abortDependencies_def
      failedResult_def started_def stateWith_def blocked_def Let_def
      validatePhase_def drainValidate.simps
      dispatchPhase_def dispatchTask_def dispatchSpeculative.simps
      spec_ops_def sm_blockCount_def sm_addDependencies_def sm_clearInProgress_def
      sm_maxAllComplete_def sm_minPending_def sm_countComplete_def)

lemma abortReported_distinct:
  "abortReported \<noteq> dispatched aborting" "abortReported \<noteq> blocked" "abortReported \<noteq> started aborting"
  by (simp_all add: abortReported_def dispatched_def blocked_def started_def stateWith_def)

lemma abortingRun_coordStep:
  assumes "abortingRun cfg"
  shows "\<exists>cfg' rs. coordStep fixed_ops spec_ops cfg = Some (Inr cfg', rs) \<and> abortingRun cfg'"
proof (cases "vars cfg = abortReported")
  case True
  with assms have c: "cfg = inLoop abortReported"
    unfolding abortingRun_def using abortReported_distinct
    by (elim disjE exE conjE) (simp_all add: inLoop_def)
  have "coordStep fixed_ops spec_ops cfg =
      Some (Inr (inLoop blocked), [failedResult 0 0 (ErrExecAbortError (- 1))])"
    unfolding c by (simp add: coordStep_def poll_abortReported coordBody_abort)
  then show ?thesis using abortingRun_intros(3) by simp
next
  case False
  with abortingRun_vars[OF assms] have "pollResults (vars cfg) = None"
    by (auto simp: poll_dispatched poll_started poll_blocked)
  then have "coordStep fixed_ops spec_ops cfg = Some (Inr cfg, [])"
    using abortingRun_coord[OF assms] by (simp add: coordStep_def)
  with assms show ?thesis by simp
qed

lemma run_aborting:
  assumes "abortingRun cfg"
  shows "\<exists>cfg' rec'. run fixed_ops spec_ops cfg rec sched = Some (Running cfg', rec')"
  using assms
proof (induction sched arbitrary: cfg rec)
  case Nil
  then show ?case by (simp add: outcome_def abortingRun_coord)
next
  case (Cons ev sched)
  show ?case
  proof (cases ev)
    case (RunProc q)
    from abortingRun_procStep[OF Cons.prems, of q] obtain cfg1 where
      s: "procStep fixed_ops spec_ops q cfg = Inr cfg1" and i: "abortingRun cfg1"
      by blast
    from Cons.IH[OF i, of rec] show ?thesis
      by (simp add: RunProc s)
  next
    case RunCoordinator
    from abortingRun_coordStep[OF Cons.prems] obtain cfg1 rs where
      s: "coordStep fixed_ops spec_ops cfg = Some (Inr cfg1, rs)" and i: "abortingRun cfg1"
      by blast
    from Cons.IH[OF i, of "rec @ rs"] show ?thesis
      by (simp add: RunCoordinator s)
  qed
qed

text \<open>
  Claim C1, as stated: for every finite batch of tasks whose \<open>Execute\<close> calls return,
  \<open>ExecuteParallel\<close> halts. For the batch of one task whose \<open>Execute\<close> returns
  \<open>ErrExecAbortError{-1}\<close> at every call, no schedule, however long, lets \<open>ExecuteParallel\<close>
  return: the task is never marked complete.
\<close>

theorem ExecuteParallel_never_returns_counterexample:
  "\<not> (\<exists>sched io e s received.
        ExecuteParallel fixed_ops spec_ops [aborting] sched = Some (Returned io e s, received))"
proof
  assume "\<exists>sched io e s received.
        ExecuteParallel fixed_ops spec_ops [aborting] sched = Some (Returned io e s, received)"
  then obtain sched io e s received where
    r: "ExecuteParallel fixed_ops spec_ops [aborting] sched = Some (Returned io e s, received)"
    by blast
  have "ExecuteParallel fixed_ops spec_ops [aborting] sched
          = run fixed_ops spec_ops (inLoop (dispatched aborting)) [] sched"
    by (simp add: ExecuteParallel_def initialise_one)
  with run_aborting[OF abortingRun_intros(1), of "[]" sched] r show False
    by auto
qed

end
